theory Spec2Isabelle
  imports Main "HOL-Library.Word"
begin

unbundle bit_operations_syntax

section \<open>The J1939 controller of j1939.cpp as a shallow embedding\<close>

text \<open>
  The embedding follows \<^verbatim>\<open>J1939::Controller\<close> (j1939.cpp and j1939.h) member by member.
  Machine integers are words of the declared width (\<^verbatim>\<open>size_t\<close> is 32 bits on the
  ESP32); where C promotes small unsigned operands to \<^verbatim>\<open>int\<close> and the result
  cannot leave the range of \<^verbatim>\<open>int\<close>, the arithmetic is written on \<open>nat\<close> and
  converted back at the assignment.

  Each \<^verbatim>\<open>std::map\<close> is an association list kept in key order, so that the iteration of
  \<^verbatim>\<open>cleanup_stale_sessions\<close> visits the entries as the C++ container does.

  Every member function becomes a function from the controller state to the new state,
  together with what it printed or logged (an \<open>event list\<close>; a log entry is the text
  of the message up to its first format argument).  The millisecond clock
  \<^verbatim>\<open>esp_log_timestamp()\<close> is an argument: a receive handler reads one value \<open>now\<close> for
  the whole call, a send function reads the clock through \<open>clock k\<close>, the value of its
  \<open>k\<close>-th query.  The transceiver is an argument too: \<open>mcp k\<close> tells whether the
  \<open>k\<close>-th call of \<^verbatim>\<open>sendMessage\<close> returns \<^verbatim>\<open>ERROR_OK\<close>.

  The embedding runs one call at a time.  The member \<^verbatim>\<open>bus_state_mutex\<close> is a flag of
  the state: it is set while the mutex is free, so that \<^verbatim>\<open>xSemaphoreTake\<close> obtains it,
  and clear while another task holds it for longer than the 100 ms a take waits.  Every
  function gives the mutex back before it returns, so a call leaves the flag as it
  found it; the other task changes it between two calls.
\<close>

subsection \<open>Constants of j1939.h\<close>

definition PGN_TP_CM :: "32 word" where "PGN_TP_CM = 0xEC00"
definition PGN_TP_DT :: "32 word" where "PGN_TP_DT = 0xEB00"
definition PGN_REQUEST :: "32 word" where "PGN_REQUEST = 0xEA00"

definition SESSION_A :: "8 word" where "SESSION_A = 2"
definition SESSION_B :: "8 word" where "SESSION_B = 3"
definition SESSION_C :: "8 word" where "SESSION_C = 6"
definition SESSION_D :: "8 word" where "SESSION_D = 7"
definition SESSION_E :: "8 word" where "SESSION_E = 10"
definition SESSION_F :: "8 word" where "SESSION_F = 11"

definition SESSION_TIMEOUT_MS :: "32 word" where "SESSION_TIMEOUT_MS = 1000"

text \<open>
  Modelled from the spec: the two macros of \<^verbatim>\<open>mcp2515/can.h\<close>, a header that is not
  part of the sources at hand.  The spec speaks of a 29-bit extended identifier and of an
  extended-identifier marker bit of \<^verbatim>\<open>can_id\<close>; the mask is the low 29 bits and the
  marker is bit 31, the values the SocketCAN header gives them.
\<close>

definition CAN_EFF_FLAG :: "32 word" where "CAN_EFF_FLAG = 0x80000000"
definition CAN_EFF_MASK :: "32 word" where "CAN_EFF_MASK = 0x1FFFFFFF"

subsection \<open>Frames, sessions, controller state\<close>

text \<open>
  \<^verbatim>\<open>struct can_frame\<close>.  The array \<^verbatim>\<open>data\<close> has eight bytes: the frames that the send
  functions build hold a list of eight, and the receive path reads a frame's list at
  the indices 0 to 7 only.
\<close>

record can_frame =
  can_id :: "32 word"
  can_dlc :: "8 word"
  data :: "8 word list"

text \<open>
  \<^verbatim>\<open>struct MultiFrameMessage\<close>.  The vector \<^verbatim>\<open>data\<close> is the field \<open>buffer\<close> (the name
  \<open>data\<close> is taken by the frame), \<^verbatim>\<open>pgn\<close> is \<open>msg_pgn\<close>; the other fields keep
  their names.
\<close>

record MultiFrameMessage =
  buffer :: "8 word list"
  total_size :: "32 word"
  msg_pgn :: "32 word"
  source_addr :: "8 word"
  session_number :: "8 word"
  packets_received :: "16 word"
  total_packets :: "16 word"
  complete :: bool
  last_activity_time :: "32 word"

text \<open>
  The private members of \<^verbatim>\<open>Controller\<close>, and the function-local static
  \<^verbatim>\<open>session_index\<close> of \<^verbatim>\<open>send_multi_frame_message\<close>.  The transceiver pointer is the
  argument \<open>mcp\<close> described above, the mutex handle is the flag \<open>bus_state_mutex\<close>; the
  member \<^verbatim>\<open>message_size\<close> is never used.
\<close>

record Controller =
  source_address :: "8 word"
  bus_busy :: bool
  bus_busy_timeout :: "32 word"
  multi_frame_messages :: "(16 word \<times> MultiFrameMessage) list"
  active_bam_sessions :: "(16 word \<times> bool) list"
  session_index :: nat
  bus_state_mutex :: bool

text \<open>The constructor; \<^verbatim>\<open>session_index\<close> starts at 0 and the new mutex is free.\<close>

definition new_Controller :: "8 word \<Rightarrow> Controller" where
  "new_Controller addr =
     \<lparr>source_address = addr, bus_busy = False, bus_busy_timeout = 0,
      multi_frame_messages = [], active_bam_sessions = [], session_index = 0, bus_state_mutex = True\<rparr>"

subsection \<open>The operations of \<^verbatim>\<open>std::map\<close> that the controller uses\<close>

text \<open>\<^verbatim>\<open>m.find(k)\<close> is \<open>map_of m k\<close>; \<^verbatim>\<open>m.erase(k)\<close>:\<close>

definition map_erase :: "'k \<Rightarrow> ('k \<times> 'v) list \<Rightarrow> ('k \<times> 'v) list" where
  "map_erase k m = filter (\<lambda>p. fst p \<noteq> k) m"

text \<open>\<^verbatim>\<open>m[k] = v\<close>: replace the entry of \<open>k\<close>, or insert it at its place in key order.\<close>

fun map_put :: "'k::linorder \<Rightarrow> 'v \<Rightarrow> ('k \<times> 'v) list \<Rightarrow> ('k \<times> 'v) list" where
  "map_put k v [] = [(k, v)]"
| "map_put k v ((k', v') # m) =
     (if k = k' then (k, v) # m
      else if k < k' then (k, v) # (k', v') # m
      else (k', v') # map_put k v m)"

definition map_keys :: "('k \<times> 'v) list \<Rightarrow> 'k set" where
  "map_keys m = fst ` set m"

subsection \<open>What the controller prints and logs\<close>

text \<open>
  \<^verbatim>\<open>printf("%02X", b)\<close>: two upper-case hexadecimal digits.  The \<^verbatim>\<open>size\<close> member of a
  printed record is the number \<^verbatim>\<open>%u\<close> of a reassembled message or the text \<^verbatim>\<open>"SF"\<close>
  of a single frame.
\<close>

definition hex_digit :: "nat \<Rightarrow> char" where
  "hex_digit n = ''0123456789ABCDEF'' ! (n mod 16)"

definition hex2 :: "8 word \<Rightarrow> string" where
  "hex2 b = [hex_digit (unat b div 16), hex_digit (unat b mod 16)]"

definition hex_bytes :: "8 word list \<Rightarrow> string" where
  "hex_bytes bs = concat (map hex2 bs)"

datatype size_field = SF | Bytes "32 word"

record json_record =
  json_pgn :: "32 word"
  json_sender :: "8 word"
  json_size :: size_field
  json_data :: string

datatype event = LogW string | LogE string | Printed json_record

definition printed :: "event list \<Rightarrow> json_record list" where
  "printed evs = concat (map (\<lambda>e. case e of Printed r \<Rightarrow> [r] | _ \<Rightarrow> []) evs)"

subsection \<open>Session management\<close>

definition is_valid_session :: "8 word \<Rightarrow> bool" where
  "is_valid_session session =
     (session = SESSION_A \<or> session = SESSION_B \<or> session = SESSION_C \<or>
      session = SESSION_D \<or> session = SESSION_E \<or> session = SESSION_F)"

text \<open>The packed key \<^verbatim>\<open>(session_number << 8) | src_addr\<close>, a \<^verbatim>\<open>uint16_t\<close>.\<close>

definition session_key :: "8 word \<Rightarrow> 8 word \<Rightarrow> 16 word" where
  "session_key session src_addr = push_bit 8 (ucast session) OR ucast src_addr"

text \<open>
  The block that every teardown path but one repeats (lines 153-162, 185-194, 288-297,
  334-343, 367-376): when the mutex is obtained, erase the key from
  \<^verbatim>\<open>active_bam_sessions\<close> if it is there, and clear \<^verbatim>\<open>bus_busy\<close> if that leaves the map
  empty.
\<close>

definition release_bus :: "16 word \<Rightarrow> Controller \<Rightarrow> Controller" where
  "release_bus session_id c =
     (if bus_state_mutex c then
        (if map_of (active_bam_sessions c) session_id \<noteq> None then
           (let owners = map_erase session_id (active_bam_sessions c)
            in c\<lparr>active_bam_sessions := owners,
                  bus_busy := (if owners = [] then False else bus_busy c)\<rparr>)
         else c)
      else c)"

definition erase_session :: "16 word \<Rightarrow> Controller \<Rightarrow> Controller" where
  "erase_session session_id c =
     c\<lparr>multi_frame_messages := map_erase session_id (multi_frame_messages c)\<rparr>"

definition is_bus_available :: "32 word \<Rightarrow> Controller \<Rightarrow> bool \<times> event list \<times> Controller" where
  "is_bus_available now c =
     (if bus_state_mutex c then
        (if bus_busy c then
           (if now > bus_busy_timeout c then
              (True, [LogW ''BAM session timed out, releasing bus''],
               c\<lparr>bus_busy := False, active_bam_sessions := []\<rparr>)
            else (False, [], c))
         else (True, [], c))
      else (False, [], c))"

definition stale :: "32 word \<Rightarrow> MultiFrameMessage \<Rightarrow> bool" where
  "stale now m = (now - last_activity_time m > SESSION_TIMEOUT_MS)"

definition is_session_valid :: "8 word \<Rightarrow> 8 word \<Rightarrow> 32 word \<Rightarrow> Controller \<Rightarrow> bool \<times> Controller" where
  "is_session_valid session src_addr now c =
     (if \<not> is_valid_session session then (False, c)
      else
        (let session_id = session_key session src_addr in
         case map_of (multi_frame_messages c) session_id of
           None \<Rightarrow> (True, c)
         | Some m \<Rightarrow>
             if stale now m then (True, release_bus session_id (erase_session session_id c))
             else (False, c)))"

definition cleanup_stale_sessions :: "32 word \<Rightarrow> Controller \<Rightarrow> event list \<times> Controller" where
  "cleanup_stale_sessions now c =
     (let sessions_to_remove = map fst (filter (\<lambda>item. stale now (snd item)) (multi_frame_messages c))
      in (map (\<lambda>session_id. LogW ''Removing stale session'') sessions_to_remove,
          fold (\<lambda>session_id c'. release_bus session_id (erase_session session_id c'))
               sessions_to_remove c))"

definition process_complete_message :: "MultiFrameMessage \<Rightarrow> event list" where
  "process_complete_message mfm =
     [Printed \<lparr>json_pgn = msg_pgn mfm, json_sender = source_addr mfm,
               json_size = Bytes (total_size mfm), json_data = hex_bytes (buffer mfm)\<rparr>]"

subsection \<open>TP.CM\<close>

text \<open>
  The fields of an announce, read the same way by the BAM branch (lines 224-232) and by
  the RTS branch (lines 260-269).  \<^verbatim>\<open>(message_size + 6) / 7\<close> is computed in \<^verbatim>\<open>int\<close>.
\<close>

definition cm_message_size :: "can_frame \<Rightarrow> 16 word" where
  "cm_message_size frame = ucast (data frame ! 1) OR push_bit 8 (ucast (data frame ! 2))"

definition cm_pgn :: "can_frame \<Rightarrow> 32 word" where
  "cm_pgn frame =
     ucast (data frame ! 5) OR push_bit 8 (ucast (data frame ! 6)) OR push_bit 16 (ucast (data frame ! 7))"

definition cm_calculated_packets :: "can_frame \<Rightarrow> 16 word" where
  "cm_calculated_packets frame = of_nat ((unat (cm_message_size frame) + 6) div 7)"

definition cm_total_packets :: "can_frame \<Rightarrow> 16 word" where
  "cm_total_packets frame =
     (let total_packets = ucast (data frame ! 3) :: 16 word
      in if total_packets = 0xFF \<or> total_packets = 0 then cm_calculated_packets frame
         else total_packets)"

text \<open>Lines 247-257 and 271-281: \<^verbatim>\<open>multi_frame_messages[session_id]\<close> with every field assigned.\<close>

definition open_session :: "can_frame \<Rightarrow> 8 word \<Rightarrow> 8 word \<Rightarrow> 32 word \<Rightarrow> Controller \<Rightarrow> Controller" where
  "open_session frame session src_addr now c =
     c\<lparr>multi_frame_messages :=
         map_put (session_key session src_addr)
           \<lparr>buffer = [], total_size = ucast (cm_message_size frame), msg_pgn = cm_pgn frame,
            source_addr = src_addr, session_number = session, packets_received = 0,
            total_packets = cm_total_packets frame, complete = False,
            last_activity_time = now\<rparr>
           (multi_frame_messages c)\<rparr>"

definition parse_tp_cm :: "can_frame \<Rightarrow> 8 word \<Rightarrow> 32 word \<Rightarrow> Controller \<Rightarrow> event list \<times> Controller" where
  "parse_tp_cm frame src_addr now c =
     (let control_byte = data frame ! 0;
          session = drop_bit 4 control_byte AND 0x0F;
          session_id = session_key session src_addr;
          (valid, c1) = is_session_valid session src_addr now c
      in if \<not> valid then ([LogW ''Invalid or busy session''], c1)
         else
           (let (evs, c2) = cleanup_stale_sessions now c1 in
            if control_byte AND 0x0F = 0x00 then
              (if cm_message_size frame = 0 \<or> cm_calculated_packets frame = 0 then
                 (evs @ [LogW ''Invalid BAM parameters''], c2)
               else
                 (evs,
                  open_session frame session src_addr now
                    (if bus_state_mutex c2 then
                       c2\<lparr>bus_busy := True,
                          bus_busy_timeout := now + ucast (cm_total_packets frame) * 200 + 500,
                          active_bam_sessions := map_put session_id True (active_bam_sessions c2)\<rparr>
                     else c2)))
            else if control_byte AND 0x0F = 0x01 then
              (evs, open_session frame session src_addr now c2)
            else if control_byte = 255 then
              (evs, release_bus session_id (erase_session session_id c2))
            else (evs, c2)))"

subsection \<open>TP.DT\<close>

text \<open>
  \<^verbatim>\<open>memcpy(dst + pos, src, n)\<close> into a vector that holds at least \<open>pos + n\<close> bytes, and
  \<^verbatim>\<open>resize\<close>, which appends zero bytes.
\<close>

definition memcpy :: "8 word list \<Rightarrow> nat \<Rightarrow> 8 word list \<Rightarrow> nat \<Rightarrow> 8 word list" where
  "memcpy dst pos src n = take pos dst @ take n src @ drop (pos + n) dst"

definition resize :: "nat \<Rightarrow> 8 word list \<Rightarrow> 8 word list" where
  "resize n v = take n v @ replicate (n - length v) 0"

definition dt_expected_seq :: "MultiFrameMessage \<Rightarrow> 8 word" where
  "dt_expected_seq mfm =
     (if packets_received mfm mod 15 = 0 then 1
      else ucast (packets_received mfm mod 15) + 1)"

text \<open>
  Lines 354-361: the fragment is copied to its place in the vector, which grows when it
  is too short, and the packet is counted.  The fragment starts at \<^verbatim>\<open>frame->data + 1\<close>.
\<close>

definition dt_store :: "MultiFrameMessage \<Rightarrow> can_frame \<Rightarrow> MultiFrameMessage" where
  "dt_store mfm frame =
     (let start_pos = ucast (packets_received mfm) * 7 :: 32 word;
          bytes_to_copy =
            (if total_size mfm - start_pos < 7 then total_size mfm - start_pos else 7);
          vec = (if length (buffer mfm) < unat (start_pos + bytes_to_copy)
                 then resize (unat (start_pos + bytes_to_copy)) (buffer mfm)
                 else buffer mfm)
      in mfm\<lparr>buffer := memcpy vec (unat start_pos) (tl (data frame)) (unat bytes_to_copy),
             packets_received := packets_received mfm + 1\<rparr>)"

definition parse_tp_dt :: "can_frame \<Rightarrow> 8 word \<Rightarrow> 32 word \<Rightarrow> Controller \<Rightarrow> event list \<times> Controller" where
  "parse_tp_dt frame src_addr now c =
     (let first_byte = data frame ! 0;
          sequence_number = first_byte AND 0x0F;
          session = drop_bit 4 first_byte AND 0x0F;
          session_id = session_key session src_addr
      in if sequence_number = 0 \<or> sequence_number > 15 then ([LogW ''Invalid sequence number''], c)
         else
           case map_of (multi_frame_messages c) session_id of
             None \<Rightarrow> ([LogW ''Received TP.DT for unknown session''], c)
           | Some mfm0 \<Rightarrow>
               (let mfm = mfm0\<lparr>last_activity_time := now\<rparr> in
                if sequence_number \<noteq> dt_expected_seq mfm then
                  ([LogW ''Out of sequence packet''],
                   release_bus session_id (erase_session session_id c))
                else
                  (let start_pos = ucast (packets_received mfm) * 7 :: 32 word in
                   if start_pos \<ge> total_size mfm then
                     ([LogW ''Data position exceeds message size''], erase_session session_id c)
                   else
                     (let mfm1 = dt_store mfm frame
                      in if packets_received mfm1 \<ge> total_packets mfm1 then
                           (process_complete_message mfm1,
                            release_bus session_id (erase_session session_id c))
                         else
                           ([], c\<lparr>multi_frame_messages :=
                                    map_put session_id mfm1 (multi_frame_messages c)\<rparr>)))))"

subsection \<open>Decoding a received frame\<close>

text \<open>Lines 385-397 of \<^verbatim>\<open>decode_j1939_message\<close>: the PGN of an identifier.\<close>

definition decode_pgn :: "32 word \<Rightarrow> 32 word" where
  "decode_pgn ident =
     (let pdu_format = ucast (drop_bit 16 ident AND 0xFF) :: 8 word;
          pgn = drop_bit 8 ident AND 0x3FFFF;
          pgn1 = (if pdu_format < 240 then pgn AND 0x3FF00 else pgn)
      in pgn1 OR push_bit 8 (ucast pdu_format))"

definition decode_j1939_message :: "can_frame \<Rightarrow> 32 word \<Rightarrow> Controller \<Rightarrow> event list \<times> Controller" where
  "decode_j1939_message frame now c =
     (if can_id frame AND CAN_EFF_FLAG = 0 then ([], c)
      else
        (let ident = can_id frame AND CAN_EFF_MASK;
             src_addr = ucast (ident AND 0xFF) :: 8 word;
             pgn = decode_pgn ident
         in if pgn = PGN_TP_CM then parse_tp_cm frame src_addr now c
            else if pgn = PGN_TP_DT then parse_tp_dt frame src_addr now c
            else if pgn = PGN_REQUEST then ([], c)
            else
              ([Printed \<lparr>json_pgn = pgn, json_sender = src_addr, json_size = SF,
                         json_data = hex_bytes (take (unat (can_dlc frame)) (data frame))\<rparr>], c)))"

subsection \<open>Transmission\<close>

text \<open>
  The gate of both send functions: one query of the bus, then up to \<open>retries\<close> further
  queries, each after a \<^verbatim>\<open>vTaskDelay\<close>; the send is given up when the last of them still
  finds the bus busy.  \<open>clock k\<close> is the time of query \<open>k\<close>.
\<close>

fun bus_retry :: "nat \<Rightarrow> (nat \<Rightarrow> 32 word) \<Rightarrow> nat \<Rightarrow> Controller \<Rightarrow> bool \<times> event list \<times> Controller" where
  "bus_retry 0 clock k c = (False, [], c)"
| "bus_retry (Suc n) clock k c =
     (let (available, evs, c1) = is_bus_available (clock k) c
      in if available then (True, evs, c1)
         else (let (r, evs', c2) = bus_retry n clock (Suc k) c1 in (r, evs @ evs', c2)))"

definition wait_for_bus ::
  "nat \<Rightarrow> string \<Rightarrow> string \<Rightarrow> (nat \<Rightarrow> 32 word) \<Rightarrow> Controller \<Rightarrow> bool \<times> event list \<times> Controller" where
  "wait_for_bus retries warning failure clock c =
     (let (available, evs, c1) = is_bus_available (clock 0) c
      in if available then (True, evs, c1)
         else (let (r, evs', c2) = bus_retry retries clock 1 c1
               in (r, evs @ [LogW warning] @ evs' @ (if r then [] else [LogE failure]), c2)))"

text \<open>Lines 416-429 and lines 467-480.\<close>

definition single_frame_gate :: "(nat \<Rightarrow> 32 word) \<Rightarrow> Controller \<Rightarrow> bool \<times> event list \<times> Controller" where
  "single_frame_gate clock c =
     wait_for_bus 5 ''Bus is busy with BAM session, delaying single frame send''
       ''Bus still busy after retry, aborting single frame send'' clock c"

definition multi_frame_gate :: "(nat \<Rightarrow> 32 word) \<Rightarrow> Controller \<Rightarrow> bool \<times> event list \<times> Controller" where
  "multi_frame_gate clock c =
     wait_for_bus 10 ''Bus is busy with another BAM session, delaying multi-frame send''
       ''Bus still busy after extended retry, aborting multi-frame send'' clock c"

text \<open>
  \<^verbatim>\<open>send_single_frame_message\<close>.  The automatic variable \<^verbatim>\<open>frame\<close> is not initialised:
  \<open>uninit\<close> is what its \<^verbatim>\<open>data\<close> array holds before the \<^verbatim>\<open>memcpy\<close>.  The caller
  passes \<open>len\<close> bytes in \<open>payload\<close>.  The result is the returned flag, the frames the
  transceiver accepted, the log, and the state.
\<close>

definition send_single_frame_message ::
  "32 word \<Rightarrow> 8 word \<Rightarrow> 8 word list \<Rightarrow> 8 word \<Rightarrow> 8 word list \<Rightarrow> (nat \<Rightarrow> 32 word) \<Rightarrow> (nat \<Rightarrow> bool)
     \<Rightarrow> Controller \<Rightarrow> bool \<times> can_frame list \<times> event list \<times> Controller" where
  "send_single_frame_message pgn dst payload len uninit clock mcp c =
     (let (available, evs, c1) = single_frame_gate clock c
      in if \<not> available then (False, [], evs, c1)
         else if len > 8 then
           (False, [], evs @ [LogE ''Single frame message cannot exceed 8 bytes''], c1)
         else
           (let pdu_format = ucast (drop_bit 8 pgn AND 0xFF) :: 8 word;
                pdu_specific = ucast (pgn AND 0xFF) :: 8 word;
                frame = \<lparr>can_id = (0x18000000 OR push_bit 16 (ucast pdu_format) OR
                                    push_bit 8 (ucast pdu_specific) OR ucast (source_address c1))
                                   OR CAN_EFF_FLAG,
                         can_dlc = len,
                         data = memcpy uninit 0 payload (unat len)\<rparr>
            in if mcp 0 then (True, [frame], evs, c1) else (False, [], evs, c1)))"

text \<open>
  One frame sent with up to \<open>n\<close> attempts (the loops at lines 511-518 and 559-566),
  each failure logged; \<open>k\<close> counts the calls of \<^verbatim>\<open>sendMessage\<close>.
\<close>

fun send_retry :: "nat \<Rightarrow> string \<Rightarrow> (nat \<Rightarrow> bool) \<Rightarrow> nat \<Rightarrow> bool \<times> event list \<times> nat" where
  "send_retry 0 warning mcp k = (False, [], k)"
| "send_retry (Suc n) warning mcp k =
     (if mcp k then (True, [], Suc k)
      else (let (sent, evs, k') = send_retry n warning mcp (Suc k)
            in (sent, LogW warning # evs, k')))"

definition working_sessions :: "8 word list" where
  "working_sessions = [2, 3, 6, 7, 10, 11]"

text \<open>The announce frame, lines 490-508; \<open>num_packets\<close> is the local \<^verbatim>\<open>total_packets = (size + 6) / 7\<close>
  and \<open>sz\<close> the parameter \<^verbatim>\<open>size\<close>.\<close>

definition bam_frame :: "8 word \<Rightarrow> 8 word \<Rightarrow> 32 word \<Rightarrow> 16 word \<Rightarrow> nat \<Rightarrow> can_frame" where
  "bam_frame this_message_session src pgn sz num_packets =
     \<lparr>can_id = (0x18EC0000 OR push_bit 8 0xFF OR ucast src) OR CAN_EFF_FLAG,
      can_dlc = 8,
      data = [0x20 OR push_bit 4 (this_message_session AND 0x0F),
              ucast (sz AND 0xFF),
              ucast (drop_bit 8 sz AND 0xFF),
              (if num_packets > 255 then 0xFF else of_nat num_packets AND 0xFF),
              0xFF,
              ucast (pgn AND 0xFF),
              ucast (drop_bit 8 pgn AND 0xFF),
              ucast (drop_bit 16 pgn AND 0xFF)]\<rparr>"

text \<open>
  The body of the data loop, lines 528-556, for the counter \<open>seq\<close>.  The counter and
  \<^verbatim>\<open>data_offset\<close> are \<^verbatim>\<open>uint16_t\<close>; \<open>seq\<close> never exceeds \<^verbatim>\<open>total_packets\<close>, which is
  at most \<open>(65535 + 6) div 7\<close>, so the counter does not wrap and is a \<open>nat\<close> here, and
  the truncations of \<^verbatim>\<open>data_offset\<close> and \<^verbatim>\<open>bytes_to_send\<close> are written out.
\<close>

definition seq_to_send :: "nat \<Rightarrow> 8 word \<times> event list" where
  "seq_to_send seq =
     (let s = (if seq > 15 then of_nat (((seq - 1) mod 15) + 1) else of_nat seq) :: 8 word
      in if s < 1 \<or> s > 15 then (1, [LogW ''Invalid sequence number'']) else (s, []))"

definition data_frame :: "8 word \<Rightarrow> 8 word \<Rightarrow> 8 word list \<Rightarrow> 16 word \<Rightarrow> nat \<Rightarrow> can_frame" where
  "data_frame this_message_session src payload sz seq =
     (let data_offset = ((seq - 1) * 7) mod 65536;
          bytes_to_send = (if data_offset + 7 > unat sz
                           then nat ((int (unat sz) - int data_offset) mod 256) else 7)
      in \<lparr>can_id = (0x18EB0000 OR push_bit 8 0xFF OR ucast src) OR CAN_EFF_FLAG,
          can_dlc = 8,
          data = (fst (seq_to_send seq) OR push_bit 4 (this_message_session AND 0x0F))
                 # take bytes_to_send (drop data_offset payload)
                 @ replicate (7 - bytes_to_send) 0xFF\<rparr>)"

function send_data_packets ::
  "nat \<Rightarrow> nat \<Rightarrow> 8 word \<Rightarrow> 8 word \<Rightarrow> 8 word list \<Rightarrow> 16 word \<Rightarrow> (nat \<Rightarrow> bool) \<Rightarrow> nat
     \<Rightarrow> bool \<times> can_frame list \<times> event list" where
  "send_data_packets seq num_packets this_message_session src payload sz mcp k =
     (if seq \<le> num_packets then
        (let frame = data_frame this_message_session src payload sz seq;
             (sent, evs, k') = send_retry 3 ''Failed to send packet'' mcp k
         in if \<not> sent then
              (False, [], snd (seq_to_send seq) @ evs @ [LogE ''Failed to send data packet''])
            else
              (let (r, frames, evs') =
                     send_data_packets (Suc seq) num_packets this_message_session src payload sz mcp k'
               in (r, frame # frames, snd (seq_to_send seq) @ evs @ evs')))
      else (True, [], []))"
  by pat_completeness auto
termination
  by (relation "measure (\<lambda>(seq, num_packets, _). Suc num_packets - seq)") auto

declare send_data_packets.simps [simp del]

definition send_multi_frame_message ::
  "32 word \<Rightarrow> 8 word list \<Rightarrow> 16 word \<Rightarrow> (nat \<Rightarrow> 32 word) \<Rightarrow> (nat \<Rightarrow> bool)
     \<Rightarrow> Controller \<Rightarrow> bool \<times> can_frame list \<times> event list \<times> Controller" where
  "send_multi_frame_message pgn payload sz clock mcp c =
     (let (available, evs, c1) = multi_frame_gate clock c
      in if \<not> available then (False, [], evs, c1)
         else
           (let num_packets = (unat sz + 6) div 7;
                this_message_session = working_sessions ! session_index c1;
                c2 = c1\<lparr>session_index := (session_index c1 + 1) mod 6\<rparr>;
                (bam_sent, evs1, k) = send_retry 3 ''Failed to send BAM, retry'' mcp 0
            in if \<not> bam_sent then (False, [], evs @ evs1 @ [LogE ''Failed to send BAM''], c2)
               else
                 (let (r, frames, evs2) =
                        send_data_packets 1 num_packets this_message_session
                          (source_address c2) payload sz mcp k
                  in (r, bam_frame this_message_session (source_address c2) pgn sz num_packets
                         # frames,
                      evs @ evs1 @ evs2, c2))))"

subsection \<open>Feeding frames to the decoder\<close>

text \<open>Each frame arrives with the time at which the receive task decodes it.\<close>

fun decode_frames :: "(can_frame \<times> 32 word) list \<Rightarrow> Controller \<Rightarrow> event list \<times> Controller" where
  "decode_frames [] c = ([], c)"
| "decode_frames ((frame, now) # rest) c =
     (let (evs, c1) = decode_j1939_message frame now c;
          (evs', c2) = decode_frames rest c1
      in (evs @ evs', c2))"

subsection \<open>Sequences of calls\<close>

text \<open>
  The public member functions that change the controller, each with the arguments of
  one call, the other task taking or giving back the mutex, and the state after a
  sequence of these.
\<close>

datatype operation =
    Decode can_frame "32 word"
  | Parse_tp_cm can_frame "8 word" "32 word"
  | Parse_tp_dt can_frame "8 word" "32 word"
  | Cleanup_stale_sessions "32 word"
  | Is_session_valid "8 word" "8 word" "32 word"
  | Is_bus_available "32 word"
  | Send_single "32 word" "8 word" "8 word list" "8 word" "8 word list" "nat \<Rightarrow> 32 word" "nat \<Rightarrow> bool"
  | Send_multi "32 word" "8 word list" "16 word" "nat \<Rightarrow> 32 word" "nat \<Rightarrow> bool"
  | Other_task_holds_mutex bool

fun perform :: "operation \<Rightarrow> Controller \<Rightarrow> Controller" where
  "perform (Decode frame now) c = snd (decode_j1939_message frame now c)"
| "perform (Parse_tp_cm frame src_addr now) c = snd (parse_tp_cm frame src_addr now c)"
| "perform (Parse_tp_dt frame src_addr now) c = snd (parse_tp_dt frame src_addr now c)"
| "perform (Cleanup_stale_sessions now) c = snd (cleanup_stale_sessions now c)"
| "perform (Is_session_valid session src_addr now) c = snd (is_session_valid session src_addr now c)"
| "perform (Is_bus_available now) c = snd (snd (is_bus_available now c))"
| "perform (Send_single pgn dst payload len uninit clock mcp) c =
     snd (snd (snd (send_single_frame_message pgn dst payload len uninit clock mcp c)))"
| "perform (Send_multi pgn payload sz clock mcp) c =
     snd (snd (snd (send_multi_frame_message pgn payload sz clock mcp c)))"
| "perform (Other_task_holds_mutex held) c = c\<lparr>bus_state_mutex := \<not> held\<rparr>"

definition run :: "operation list \<Rightarrow> Controller \<Rightarrow> Controller" where
  "run ops c = fold perform ops c"

text \<open>
  The session of a transfer of the payload \<open>P\<close>, announced with the size \<open>sz\<close> and the
  PGN \<open>pgn\<close> by the node \<open>src\<close>, once \<open>k\<close> of its data frames have been stored.
\<close>

definition collecting :: "8 word list \<Rightarrow> 16 word \<Rightarrow> 32 word \<Rightarrow> 8 word \<Rightarrow> nat \<Rightarrow> MultiFrameMessage \<Rightarrow> bool" where
  "collecting P sz pgn src k m =
     (buffer m = take (7 * k) P \<and> unat (packets_received m) = k
      \<and> unat (total_packets m) = (length P + 6) div 7 \<and> total_size m = ucast sz
      \<and> msg_pgn m = pgn AND 0xFFFFFF \<and> source_addr m = src)"

text \<open>The bound on a session's buffer, and the relation between bus owners and sessions.\<close>

definition session_bounded :: "MultiFrameMessage \<Rightarrow> bool" where
  "session_bounded m = (length (buffer m) \<le> unat (total_size m) \<and> unat (total_size m) \<le> 65535)"

definition sessions_bounded :: "Controller \<Rightarrow> bool" where
  "sessions_bounded c = (\<forall>p \<in> set (multi_frame_messages c). session_bounded (snd p))"

definition owners_have_sessions :: "Controller \<Rightarrow> bool" where
  "owners_have_sessions c =
     (map_keys (active_bam_sessions c) \<subseteq> map_keys (multi_frame_messages c))"

text \<open>
  The session number that a key packs in its high byte, and the states whose keys, in
  the table and among the bus owners, all pack one of the six session numbers.
\<close>

definition key_session :: "16 word \<Rightarrow> 8 word" where
  "key_session k = ucast (drop_bit 8 k)"

definition keys_valid :: "Controller \<Rightarrow> bool" where
  "keys_valid c =
     (\<forall>k \<in> map_keys (multi_frame_messages c) \<union> map_keys (active_bam_sessions c).
        is_valid_session (key_session k))"

section \<open>Properties\<close>

subsection \<open>Masks as bit ranges\<close>

lemma mask_FF: "(0xFF::32 word) = mask 8"
  by (simp add: mask_eq_exp_minus_1)

lemma mask_3FFFF: "(0x3FFFF::32 word) = mask 18"
  by (simp add: mask_eq_exp_minus_1)

lemma mask_3FF00: "(0x3FF00::32 word) = push_bit 8 (mask 10)"
  by (simp add: mask_eq_exp_minus_1)

lemma mask_30000: "(0x30000::32 word) = push_bit 16 (mask 2)"
  by (simp add: mask_eq_exp_minus_1)

lemma mask_3: "(3::32 word) = mask 2"
  by (simp add: mask_eq_exp_minus_1)

subsection \<open>C3: the PGN of an identifier\<close>

lemma pdu_format_less:
  "(ucast (drop_bit 16 ident AND 0xFF) :: 8 word) < 240 \<longleftrightarrow> drop_bit 16 ident AND (0xFF::32 word) < 240"
  unfolding mask_FF word_less_nat_alt
  by (simp add: unsigned_ucast_eq unsigned_take_bit_eq flip: take_bit_eq_mask)

lemma pgn_pdu1_bits:
  "((drop_bit 8 ident AND 0x3FFFF) AND 0x3FF00)
     OR push_bit 8 (ucast (ucast (drop_bit 16 ident AND 0xFF :: 32 word) :: 8 word))
   = (drop_bit 8 ident AND 0x30000) OR push_bit 8 (drop_bit 16 ident AND 0xFF)"
  unfolding mask_FF mask_3FFFF mask_3FF00 mask_30000
  by (rule bit_word_eqI) (auto simp: bit_simps)

lemma pgn_pdu2_bits:
  "(drop_bit 8 ident AND 0x3FFFF)
     OR push_bit 8 (ucast (ucast (drop_bit 16 ident AND 0xFF :: 32 word) :: 8 word))
   = (drop_bit 8 ident AND 0x30000) OR push_bit 8 (drop_bit 16 ident AND 0xFF)
     OR (drop_bit 8 ident AND 0xFF)"
  unfolding mask_FF mask_3FFFF mask_3FF00 mask_30000
  by (rule bit_word_eqI) (auto simp: bit_simps)

lemma page_bits:
  "drop_bit 8 ident AND (0x30000::32 word) = push_bit 16 (drop_bit 24 ident AND 3)"
  unfolding mask_30000 mask_3
  by (rule bit_word_eqI) (auto simp: bit_simps)

lemma decode_pgn_pages:
  "decode_pgn ident =
     (let pdu_format = drop_bit 16 ident AND 0xFF;
          pdu_specific = drop_bit 8 ident AND 0xFF;
          page = push_bit 16 (drop_bit 24 ident AND 3)
      in if pdu_format < 240 then page OR push_bit 8 pdu_format
         else page OR push_bit 8 pdu_format OR pdu_specific)"
proof (cases "drop_bit 16 ident AND (0xFF::32 word) < 240")
  case True
  then show ?thesis
    unfolding decode_pgn_def Let_def pdu_format_less page_bits [symmetric]
    by (simp only: pgn_pdu1_bits if_True)
next
  case False
  then show ?thesis
    unfolding decode_pgn_def Let_def pdu_format_less page_bits [symmetric]
    by (simp only: pgn_pdu2_bits if_False)
qed

text \<open>
  C3, as stated, fails: the identifier \<open>0x19EF2032\<close> is a 29-bit identifier with
  \<open>pdu_format = 0xEF < 240\<close>, and its PGN is \<open>0x1EF00\<close>, not \<open>pdu_format << 8 = 0xEF00\<close>.
  The frame that carries it is printed with that PGN.
\<close>

theorem decode_pgn_data_page_counterexample:
  "(0x19EF2032::32 word) AND CAN_EFF_MASK = 0x19EF2032
   \<and> drop_bit 16 (0x19EF2032::32 word) AND 0xFF = 0xEF \<and> (0xEF::32 word) < 240
   \<and> decode_pgn 0x19EF2032 = 0x1EF00
   \<and> decode_pgn 0x19EF2032 \<noteq> push_bit 8 (drop_bit 16 (0x19EF2032::32 word) AND 0xFF)
   \<and> printed (fst (decode_j1939_message
          \<lparr>can_id = 0x99EF2032, can_dlc = 0, data = replicate 8 0\<rparr> 0 (new_Controller 0)))
      = [\<lparr>json_pgn = 0x1EF00, json_sender = 0x32, json_size = SF, json_data = []\<rparr>]"
  by (simp add: decode_j1939_message_def decode_pgn_def CAN_EFF_FLAG_def CAN_EFF_MASK_def
      PGN_TP_CM_def PGN_TP_DT_def PGN_REQUEST_def printed_def hex_bytes_def)

text \<open>
  C3, amended: for every identifier, the PGN that \<open>decode_j1939_message\<close> computes is
  \<open>page | (pdu_format << 8)\<close> when \<open>pdu_format < 240\<close> and
  \<open>page | (pdu_format << 8) | pdu_specific\<close> when \<open>pdu_format \<ge> 240\<close>, where
  \<open>pdu_format = (id >> 16) & 0xFF\<close>, \<open>pdu_specific = (id >> 8) & 0xFF\<close> and
  \<open>page = ((id >> 24) & 3) << 16\<close> holds the reserved and data-page bits of the identifier;
  for an identifier in which these two bits are 0 it is the value that C3 states.
\<close>

theorem decode_pgn_formula:
  "decode_pgn ident =
     (let pdu_format = drop_bit 16 ident AND 0xFF;
          pdu_specific = drop_bit 8 ident AND 0xFF;
          page = push_bit 16 (drop_bit 24 ident AND 3)
      in if pdu_format < 240 then page OR push_bit 8 pdu_format
         else page OR push_bit 8 pdu_format OR pdu_specific)
   \<and> (drop_bit 24 ident AND 3 = 0 \<longrightarrow>
        decode_pgn ident =
          (let pdu_format = drop_bit 16 ident AND 0xFF;
               pdu_specific = drop_bit 8 ident AND 0xFF
           in if pdu_format < 240 then push_bit 8 pdu_format
              else push_bit 8 pdu_format OR pdu_specific))"
proof (intro conjI impI)
  show "decode_pgn ident =
     (let pdu_format = drop_bit 16 ident AND 0xFF;
          pdu_specific = drop_bit 8 ident AND 0xFF;
          page = push_bit 16 (drop_bit 24 ident AND 3)
      in if pdu_format < 240 then page OR push_bit 8 pdu_format
         else page OR push_bit 8 pdu_format OR pdu_specific)"
    by (rule decode_pgn_pages)
next
  assume "drop_bit 24 ident AND 3 = 0"
  then show "decode_pgn ident =
          (let pdu_format = drop_bit 16 ident AND 0xFF;
               pdu_specific = drop_bit 8 ident AND 0xFF
           in if pdu_format < 240 then push_bit 8 pdu_format
              else push_bit 8 pdu_format OR pdu_specific)"
    by (simp add: decode_pgn_pages Let_def)
qed

theorem decode_pgn_formula_witness:
  "drop_bit 24 (0x18FEDA32::32 word) AND 3 = 0 \<and> decode_pgn 0x18FEDA32 = 0xFEDA
   \<and> drop_bit 24 (0x18EC1032::32 word) AND 3 = 0 \<and> decode_pgn 0x18EC1032 = 0xEC00"
  using decode_pgn_formula [of "0x18FEDA32"] decode_pgn_formula [of "0x18EC1032"]
  by (simp add: Let_def)

subsection \<open>Facts about the two maps and the bus fields\<close>

lemma map_keys_put [simp]: "map_keys (map_put k v m) = insert k (map_keys m)"
proof (induction m)
  case Nil
  show ?case by (simp add: map_keys_def)
next
  case (Cons p m)
  obtain k' v' where p: "p = (k', v')" by (cases p)
  from Cons show ?case unfolding p map_keys_def by (simp add: insert_commute)
qed

lemma release_bus_sessions [simp]:
  "multi_frame_messages (release_bus k c) = multi_frame_messages c"
  by (simp add: release_bus_def Let_def)

lemma erase_session_sessions [simp]:
  "multi_frame_messages (erase_session k c) = map_erase k (multi_frame_messages c)"
  by (simp add: erase_session_def)

lemma open_session_bus [simp]:
  "bus_busy (open_session frame session src_addr now c) = bus_busy c"
  "bus_busy_timeout (open_session frame session src_addr now c) = bus_busy_timeout c"
  "active_bam_sessions (open_session frame session src_addr now c) = active_bam_sessions c"
  by (simp_all add: open_session_def)

text \<open>Every call leaves the mutex as it found it.\<close>

lemma release_bus_mutex [simp]: "bus_state_mutex (release_bus k c) = bus_state_mutex c"
  by (simp add: release_bus_def Let_def)

lemma erase_session_mutex [simp]: "bus_state_mutex (erase_session k c) = bus_state_mutex c"
  by (simp add: erase_session_def)

lemma open_session_mutex [simp]:
  "bus_state_mutex (open_session frame session src_addr now c) = bus_state_mutex c"
  by (simp add: open_session_def)

lemma is_session_valid_mutex [simp]:
  "bus_state_mutex (snd (is_session_valid session src_addr now c)) = bus_state_mutex c"
  by (simp add: is_session_valid_def Let_def split: option.splits)

lemma fold_erase_mutex:
  "bus_state_mutex (fold (\<lambda>k c'. release_bus k (erase_session k c')) ks c) = bus_state_mutex c"
  by (induction ks arbitrary: c) simp_all

lemma cleanup_mutex [simp]:
  "bus_state_mutex (snd (cleanup_stale_sessions now c)) = bus_state_mutex c"
  by (simp add: cleanup_stale_sessions_def Let_def fold_erase_mutex)

lemma is_bus_available_fields [simp]:
  "source_address (snd (snd (is_bus_available now c))) = source_address c"
  "session_index (snd (snd (is_bus_available now c))) = session_index c"
  "multi_frame_messages (snd (snd (is_bus_available now c))) = multi_frame_messages c"
  by (simp_all add: is_bus_available_def)

lemma bus_retry_fields [simp]:
  "source_address (snd (snd (bus_retry n clock k c))) = source_address c"
  "session_index (snd (snd (bus_retry n clock k c))) = session_index c"
  "multi_frame_messages (snd (snd (bus_retry n clock k c))) = multi_frame_messages c"
  by (induction n arbitrary: k c; simp add: split_beta Let_def)+

lemma wait_for_bus_fields [simp]:
  "source_address (snd (snd (wait_for_bus n w e clock c))) = source_address c"
  "session_index (snd (snd (wait_for_bus n w e clock c))) = session_index c"
  "multi_frame_messages (snd (snd (wait_for_bus n w e clock c))) = multi_frame_messages c"
  by (simp_all add: wait_for_bus_def split_beta Let_def)

lemma gate_fields [simp]:
  "source_address (snd (snd (multi_frame_gate clock c))) = source_address c"
  "session_index (snd (snd (multi_frame_gate clock c))) = session_index c"
  "multi_frame_messages (snd (snd (multi_frame_gate clock c))) = multi_frame_messages c"
  "source_address (snd (snd (single_frame_gate clock c))) = source_address c"
  "session_index (snd (snd (single_frame_gate clock c))) = session_index c"
  "multi_frame_messages (snd (snd (single_frame_gate clock c))) = multi_frame_messages c"
  by (simp_all add: multi_frame_gate_def single_frame_gate_def)

lemma send_retry_3:
  "fst (send_retry 3 w mcp k) \<longleftrightarrow> mcp k \<or> mcp (Suc k) \<or> mcp (Suc (Suc k))"
  by (simp add: numeral_3_eq_3 split_beta Let_def)

lemma calculated_packets_unat:
  "unat (cm_calculated_packets frame) = (unat (cm_message_size frame) + 6) div 7"
proof -
  have "unat (cm_message_size frame) < 65536"
    using unsigned_less [of "cm_message_size frame", where 'a = nat] by simp
  then have "(unat (cm_message_size frame) + 6) div 7 < 65536" by simp
  then show ?thesis
    by (simp add: cm_calculated_packets_def unat_of_nat)
qed

lemma calculated_packets_zero:
  "cm_calculated_packets frame = 0 \<longleftrightarrow> cm_message_size frame = 0"
proof -
  have "cm_calculated_packets frame = 0 \<longleftrightarrow> unat (cm_calculated_packets frame) = 0"
    by (simp add: unat_eq_0)
  also have "\<dots> \<longleftrightarrow> unat (cm_message_size frame) = 0"
    unfolding calculated_packets_unat by auto
  also have "\<dots> \<longleftrightarrow> cm_message_size frame = 0"
    by (simp add: unat_eq_0)
  finally show ?thesis .
qed

text \<open>The definitions that a run of the receive path on concrete frames unfolds.\<close>

lemmas receive_defs =
  decode_j1939_message_def decode_pgn_def CAN_EFF_FLAG_def CAN_EFF_MASK_def
  PGN_TP_CM_def PGN_TP_DT_def PGN_REQUEST_def
  parse_tp_cm_def parse_tp_dt_def is_session_valid_def is_valid_session_def
  SESSION_A_def SESSION_B_def SESSION_C_def SESSION_D_def SESSION_E_def SESSION_F_def
  cleanup_stale_sessions_def new_Controller_def session_key_def open_session_def
  cm_message_size_def cm_total_packets_def cm_calculated_packets_def cm_pgn_def
  release_bus_def erase_session_def map_erase_def stale_def SESSION_TIMEOUT_MS_def
  is_bus_available_def dt_expected_seq_def dt_store_def memcpy_def resize_def
  process_complete_message_def

subsection \<open>C7: the bus arbiter\<close>

text \<open>
  C7, as stated, fails for a state whose mutex another task holds: the take at line
  117 times out and \<open>is_bus_available\<close> answers false (lines 130-132), although the bus is
  not busy.
\<close>

theorem mutex_held_counterexample:
  "bus_busy ((new_Controller 0x32)\<lparr>bus_state_mutex := False\<rparr>) = False
   \<and> fst (is_bus_available 7 ((new_Controller 0x32)\<lparr>bus_state_mutex := False\<rparr>)) = False"
  by (simp add: is_bus_available_def new_Controller_def)

text \<open>
  C7, amended: under the bus mutex, \<open>is_bus_available\<close> answers \<open>\<not> bus_busy\<close> and leaves the
  state alone, except that a busy bus whose deadline \<open>bus_busy_timeout\<close> lies before
  \<open>now\<close> is released (\<open>bus_busy\<close> cleared, \<open>active_bam_sessions\<close> emptied, a warning
  logged) and the answer is true.  When the mutex is not obtained the answer is false
  and the state is left alone.  Under the mutex, a BAM announce (low nibble 0) that is
  admitted and announces a size other than 0 marks the bus busy for its key and sets
  the deadline to \<open>now + total_packets * 200 + 500\<close>, in 32-bit arithmetic, where
  \<open>total_packets\<close> is the announced packet count, or the count derived from the size
  when byte 3 is 0 or \<open>0xFF\<close>.
\<close>

theorem bus_arbiter:
  "(bus_state_mutex c \<longrightarrow>
      is_bus_available now c =
        (if bus_busy c \<and> now > bus_busy_timeout c
         then (True, [LogW ''BAM session timed out, releasing bus''],
               c\<lparr>bus_busy := False, active_bam_sessions := []\<rparr>)
         else (\<not> bus_busy c, [], c)))
   \<and> (\<not> bus_state_mutex c \<longrightarrow> is_bus_available now c = (False, [], c))
   \<and> (bus_state_mutex c
        \<and> data frame ! 0 AND 0x0F = 0
        \<and> fst (is_session_valid (drop_bit 4 (data frame ! 0) AND 0x0F) src_addr now c)
        \<and> cm_message_size frame \<noteq> 0 \<longrightarrow>
      bus_busy (snd (parse_tp_cm frame src_addr now c))
      \<and> bus_busy_timeout (snd (parse_tp_cm frame src_addr now c))
          = now + ucast (cm_total_packets frame) * 200 + 500
      \<and> session_key (drop_bit 4 (data frame ! 0) AND 0x0F) src_addr
          \<in> map_keys (active_bam_sessions (snd (parse_tp_cm frame src_addr now c))))"
proof (intro conjI impI)
  assume "bus_state_mutex c"
  then show "is_bus_available now c =
     (if bus_busy c \<and> now > bus_busy_timeout c
      then (True, [LogW ''BAM session timed out, releasing bus''],
            c\<lparr>bus_busy := False, active_bam_sessions := []\<rparr>)
      else (\<not> bus_busy c, [], c))"
    by (simp add: is_bus_available_def)
next
  assume "\<not> bus_state_mutex c"
  then show "is_bus_available now c = (False, [], c)"
    by (simp add: is_bus_available_def)
next
  assume h: "bus_state_mutex c
        \<and> data frame ! 0 AND 0x0F = 0
        \<and> fst (is_session_valid (drop_bit 4 (data frame ! 0) AND 0x0F) src_addr now c)
        \<and> cm_message_size frame \<noteq> 0"
  then have *: "snd (parse_tp_cm frame src_addr now c) =
     (let c2 = snd (cleanup_stale_sessions now
                 (snd (is_session_valid (drop_bit 4 (data frame ! 0) AND 0x0F) src_addr now c)))
      in open_session frame (drop_bit 4 (data frame ! 0) AND 0x0F) src_addr now
           (c2\<lparr>bus_busy := True,
               bus_busy_timeout := now + ucast (cm_total_packets frame) * 200 + 500,
               active_bam_sessions :=
                 map_put (session_key (drop_bit 4 (data frame ! 0) AND 0x0F) src_addr) True
                   (active_bam_sessions c2)\<rparr>))"
    by (simp add: parse_tp_cm_def Let_def split_beta calculated_packets_zero)
  show "bus_busy (snd (parse_tp_cm frame src_addr now c))"
    unfolding * by (simp add: Let_def)
  show "bus_busy_timeout (snd (parse_tp_cm frame src_addr now c))
          = now + ucast (cm_total_packets frame) * 200 + 500"
    unfolding * by (simp add: Let_def)
  show "session_key (drop_bit 4 (data frame ! 0) AND 0x0F) src_addr
          \<in> map_keys (active_bam_sessions (snd (parse_tp_cm frame src_addr now c)))"
    unfolding * by (simp add: Let_def)
qed

text \<open>
  A receiver hears the announce of a 21-byte message in 3 packets at time 5: the
  deadline is \<open>5 + 3 * 200 + 500 = 1105\<close>, and the query at time 1106 releases the bus.
  A new controller whose mutex another task holds answers false.
\<close>

theorem bus_arbiter_witness:
  "bus_busy_timeout (snd (parse_tp_cm
       \<lparr>can_id = 0x98ECFF32, can_dlc = 8, data = [0x20, 0x15, 0, 3, 0xFF, 0xDA, 0xFE, 0]\<rparr>
       0x32 5 (new_Controller 0x10))) = 1105
   \<and> is_bus_available 1106 (snd (parse_tp_cm
       \<lparr>can_id = 0x98ECFF32, can_dlc = 8, data = [0x20, 0x15, 0, 3, 0xFF, 0xDA, 0xFE, 0]\<rparr>
       0x32 5 (new_Controller 0x10)))
     = (True, [LogW ''BAM session timed out, releasing bus''],
        (snd (parse_tp_cm
           \<lparr>can_id = 0x98ECFF32, can_dlc = 8, data = [0x20, 0x15, 0, 3, 0xFF, 0xDA, 0xFE, 0]\<rparr>
           0x32 5 (new_Controller 0x10)))
        \<lparr>bus_busy := False, active_bam_sessions := []\<rparr>)
   \<and> is_bus_available 5 ((new_Controller 0x10)\<lparr>bus_state_mutex := False\<rparr>)
     = (False, [], (new_Controller 0x10)\<lparr>bus_state_mutex := False\<rparr>)"
  using bus_arbiter [of "(new_Controller 0x10)\<lparr>bus_state_mutex := False\<rparr>" 5]
    bus_arbiter [of "snd (parse_tp_cm
           \<lparr>can_id = 0x98ECFF32, can_dlc = 8, data = [0x20, 0x15, 0, 3, 0xFF, 0xDA, 0xFE, 0]\<rparr>
           0x32 5 (new_Controller 0x10))" 1106
        "\<lparr>can_id = 0x98ECFF32, can_dlc = 8, data = [0x20, 0x15, 0, 3, 0xFF, 0xDA, 0xFE, 0]\<rparr>" "0x32"]
    bus_arbiter [of "new_Controller 0x10" 5
        "\<lparr>can_id = 0x98ECFF32, can_dlc = 8, data = [0x20, 0x15, 0, 3, 0xFF, 0xDA, 0xFE, 0]\<rparr>" "0x32"]
  by (simp add: receive_defs Let_def)

subsection \<open>C9: the sweep is idempotent\<close>

lemma fold_erase_sessions:
  "multi_frame_messages (fold (\<lambda>k c'. release_bus k (erase_session k c')) ks c)
     = filter (\<lambda>p. fst p \<notin> set ks) (multi_frame_messages c)"
  by (induction ks arbitrary: c) (auto simp: map_erase_def intro: filter_cong)

lemma cleanup_sessions_keys:
  "multi_frame_messages (snd (cleanup_stale_sessions now c))
     = filter (\<lambda>p. fst p \<notin> fst ` {x \<in> set (multi_frame_messages c). stale now (snd x)})
         (multi_frame_messages c)"
  unfolding cleanup_stale_sessions_def Let_def snd_conv fold_erase_sessions by simp

lemma no_stale_after_cleanup:
  "filter (\<lambda>item. stale now (snd item))
     (multi_frame_messages (snd (cleanup_stale_sessions now c))) = []"
  unfolding cleanup_sessions_keys by (auto simp: filter_empty_conv)

text \<open>
  C9: a second \<open>cleanup_stale_sessions\<close> at the same time \<open>now\<close> finds no stale entry:
  the session table is the one the first sweep left, and so is the whole state, with
  nothing logged.
\<close>

theorem cleanup_stale_sessions_idempotent:
  "multi_frame_messages (snd (cleanup_stale_sessions now (snd (cleanup_stale_sessions now c))))
     = multi_frame_messages (snd (cleanup_stale_sessions now c))
   \<and> cleanup_stale_sessions now (snd (cleanup_stale_sessions now c))
     = ([], snd (cleanup_stale_sessions now c))"
proof -
  have "cleanup_stale_sessions now (snd (cleanup_stale_sessions now c))
     = ([], snd (cleanup_stale_sessions now c))"
    by (subst cleanup_stale_sessions_def) (simp add: no_stale_after_cleanup Let_def)
  then show ?thesis by simp
qed

subsection \<open>C10: a multi-frame send of no bytes\<close>

text \<open>
  C10: when the gate finds the bus available and one of the three attempts to send the
  announce succeeds, \<open>send_multi_frame_message\<close> with \<open>size = 0\<close> returns true, and the
  only frame it puts on the bus is the announce, whose bytes 1 to 3 (total size and
  total packets) are 0.
\<close>

theorem send_multi_frame_message_empty:
  assumes bus: "fst (multi_frame_gate clock c)"
      and announce: "mcp 0 \<or> mcp 1 \<or> mcp 2"
  shows "fst (send_multi_frame_message pgn payload 0 clock mcp c)
       \<and> fst (snd (send_multi_frame_message pgn payload 0 clock mcp c))
           = [\<lparr>can_id = (0x18EC0000 OR push_bit 8 0xFF OR ucast (source_address c)) OR CAN_EFF_FLAG,
               can_dlc = 8,
               data = [0x20 OR push_bit 4 ((working_sessions ! session_index c) AND 0x0F),
                       0, 0, 0, 0xFF,
                       ucast (pgn AND 0xFF), ucast (drop_bit 8 pgn AND 0xFF),
                       ucast (drop_bit 16 pgn AND 0xFF)]\<rparr>]"
proof -
  obtain evs c1 where w: "multi_frame_gate clock c = (True, evs, c1)"
    using bus by (cases "multi_frame_gate clock c") auto
  have c1: "source_address c1 = source_address c" "session_index c1 = session_index c"
    using gate_fields(1,2) [of clock c] by (simp_all add: w)
  have "fst (send_retry 3 ''Failed to send BAM, retry'' mcp 0)"
    using announce by (simp add: send_retry_3 numeral_2_eq_2)
  then obtain evs1 k where r: "send_retry 3 ''Failed to send BAM, retry'' mcp 0 = (True, evs1, k)"
    by (cases "send_retry 3 ''Failed to send BAM, retry'' mcp 0") auto
  show ?thesis
    by (simp add: send_multi_frame_message_def w r c1 bam_frame_def Let_def
        send_data_packets.simps)
qed

text \<open>A fresh controller, a free bus, and a transceiver that refuses the first attempt.\<close>

theorem send_multi_frame_message_empty_witness:
  "fst (send_multi_frame_message 0xFEDA [] 0 (\<lambda>k. 0) (\<lambda>k. k = 1) (new_Controller 0x32))
   \<and> fst (snd (send_multi_frame_message 0xFEDA [] 0 (\<lambda>k. 0) (\<lambda>k. k = 1) (new_Controller 0x32)))
       = [\<lparr>can_id = 0x98ECFF32, can_dlc = 8, data = [0x20, 0, 0, 0, 0xFF, 0xDA, 0xFE, 0]\<rparr>]"
proof -
  have a: "fst (multi_frame_gate (\<lambda>k. 0) (new_Controller 0x32))"
    by (simp add: multi_frame_gate_def wait_for_bus_def is_bus_available_def new_Controller_def)
  have b: "(\<lambda>k. k = 1) (0::nat) \<or> (\<lambda>k. k = 1) (1::nat) \<or> (\<lambda>k. k = 1) (2::nat)"
    by simp
  show ?thesis
    using send_multi_frame_message_empty [OF a b, of "0xFEDA" "[]"]
    by (simp add: new_Controller_def working_sessions_def CAN_EFF_FLAG_def)
qed

subsection \<open>Lookup, insertion and removal\<close>

lemma map_of_erase [simp]: "map_of (map_erase k m) k' = (if k' = k then None else map_of m k')"
  by (induction m) (auto simp: map_erase_def)

lemma map_keys_erase [simp]: "map_keys (map_erase k m) = map_keys m - {k}"
  by (auto simp: map_erase_def map_keys_def)

lemma map_of_put [simp]: "map_of (map_put k v m) k' = (if k' = k then Some v else map_of m k')"
  by (induction m) auto

lemma set_map_erase: "set (map_erase k m) \<subseteq> set m"
  by (auto simp: map_erase_def)

lemma map_of_None_keys: "map_of m k = None \<longleftrightarrow> k \<notin> map_keys m"
  by (simp add: map_of_eq_None_iff map_keys_def)

lemma release_bus_not_owner [simp]:
  "bus_state_mutex c \<Longrightarrow> k \<notin> map_keys (active_bam_sessions (release_bus k c))"
  by (simp add: release_bus_def Let_def map_of_None_keys)

lemma low_nibble_le: "(x :: 8 word) AND 0x0F \<le> 15"
  by (rule word_and_le1)

subsection \<open>C1: the abort control byte\<close>

text \<open>
  Every key that a sequence of calls puts in the table or among the bus owners packs a
  session number that \<open>is_valid_session\<close> accepts: a key enters the table only in
  \<open>parse_tp_cm\<close>, behind the check of \<open>is_session_valid\<close>, or in \<open>parse_tp_dt\<close>, which
  writes back under a key that it has found there.
\<close>

lemma key_session_key [simp]: "key_session (session_key s src) = s"
  unfolding key_session_def session_key_def
  by (rule bit_word_eqI) (auto simp: bit_simps dest: bit_imp_le_length)

lemma keys_valid_new [simp]: "keys_valid (new_Controller a)"
  by (simp add: keys_valid_def new_Controller_def map_keys_def)
















lemma keys_valid_index [simp]: "keys_valid (c\<lparr>session_index := i\<rparr>) = keys_valid c"
  by (simp add: keys_valid_def)

lemma keys_valid_mutex [simp]: "keys_valid (c\<lparr>bus_state_mutex := b\<rparr>) = keys_valid c"
  by (simp add: keys_valid_def)







subsection \<open>C5: a data frame out of sequence\<close>

lemma dt_expected_seq_unat:
  "unat (dt_expected_seq m) = unat (packets_received m) mod 15 + 1"
proof -
  let ?r = "packets_received m mod 15"
  have r: "unat ?r = unat (packets_received m) mod 15"
    by (simp add: unat_mod)
  then have lt: "unat ?r < 15" by simp
  have u: "unat (ucast ?r :: 8 word) = unat ?r"
    using lt by (simp add: unsigned_ucast_eq take_bit_nat_eq_self)
  have s: "unat ((ucast ?r :: 8 word) + 1) = unat ?r + 1"
    using lt u by (simp add: unat_word_ariths)
  show ?thesis
  proof (cases "?r = 0")
    case True
    have z: "unat ?r = 0" by (subst True) simp
    have "dt_expected_seq m = 1"
      unfolding dt_expected_seq_def by (simp only: True refl if_True)
    then show ?thesis using r z by simp
  next
    case False
    have "dt_expected_seq m = ucast ?r + 1"
      unfolding dt_expected_seq_def by (simp only: False refl if_False)
    then show ?thesis using r s by simp
  qed
qed

text \<open>
  C5, as stated, fails for the sequence field 0: it differs from every expected value
  (which lies in 1..15), yet \<open>parse_tp_dt\<close> only drops the frame (line 307) and the
  session lives on.
\<close>

theorem sequence_zero_counterexample:
  "map_of (multi_frame_messages
       \<lparr>source_address = 0x10, bus_busy = True, bus_busy_timeout = 1105,
        multi_frame_messages =
         [(0x0232, \<lparr>buffer = [], total_size = 21, msg_pgn = 0xFEDA, source_addr = 0x32,
                    session_number = 2, packets_received = 0, total_packets = 3,
                    complete = False, last_activity_time = 5\<rparr>)],
        active_bam_sessions = [(0x0232, True)], session_index = 0, bus_state_mutex = True\<rparr>) 0x0232
     = Some \<lparr>buffer = [], total_size = 21, msg_pgn = 0xFEDA, source_addr = 0x32,
                    session_number = 2, packets_received = 0, total_packets = 3,
                    complete = False, last_activity_time = 5\<rparr>
   \<and> session_key (drop_bit 4 (0x20::8 word) AND 0x0F) 0x32 = 0x0232
   \<and> unat ((0x20::8 word) AND 0x0F) \<noteq> unat (0::16 word) mod 15 + 1
   \<and> parse_tp_dt \<lparr>can_id = 0x98EBFF32, can_dlc = 8, data = [0x20, 1, 2, 3, 4, 5, 6, 7]\<rparr> 0x32 6
       \<lparr>source_address = 0x10, bus_busy = True, bus_busy_timeout = 1105,
        multi_frame_messages =
         [(0x0232, \<lparr>buffer = [], total_size = 21, msg_pgn = 0xFEDA, source_addr = 0x32,
                    session_number = 2, packets_received = 0, total_packets = 3,
                    complete = False, last_activity_time = 5\<rparr>)],
        active_bam_sessions = [(0x0232, True)], session_index = 0, bus_state_mutex = True\<rparr>
     = ([LogW ''Invalid sequence number''],
       \<lparr>source_address = 0x10, bus_busy = True, bus_busy_timeout = 1105,
        multi_frame_messages =
         [(0x0232, \<lparr>buffer = [], total_size = 21, msg_pgn = 0xFEDA, source_addr = 0x32,
                    session_number = 2, packets_received = 0, total_packets = 3,
                    complete = False, last_activity_time = 5\<rparr>)],
        active_bam_sessions = [(0x0232, True)], session_index = 0, bus_state_mutex = True\<rparr>)"
  by (simp add: receive_defs)

text \<open>
  C5, amended: for a session \<open>m\<close> in the table under the key of the frame, a TP.DT frame
  whose sequence field is not 0 and differs from \<open>(packets_received % 15) + 1\<close> removes
  the session from the table and prints no record; when the bus mutex is obtained it
  also removes the key from the bus owners (clearing \<open>bus_busy\<close> when no owner is left),
  and when the mutex is not obtained the owners and \<open>bus_busy\<close> stay as they were.  A
  frame whose sequence field is 0 is dropped with a warning and changes nothing.
\<close>

theorem out_of_sequence_destroys_session:
  assumes live: "map_of (multi_frame_messages c)
                   (session_key (drop_bit 4 (data frame ! 0) AND 0x0F) src_addr) = Some m"
      and differs: "unat (data frame ! 0 AND 0x0F) \<noteq> unat (packets_received m) mod 15 + 1"
  shows "(data frame ! 0 AND 0x0F \<noteq> 0 \<longrightarrow>
            parse_tp_dt frame src_addr now c
              = ([LogW ''Out of sequence packet''],
                 release_bus (session_key (drop_bit 4 (data frame ! 0) AND 0x0F) src_addr)
                   (erase_session (session_key (drop_bit 4 (data frame ! 0) AND 0x0F) src_addr) c))
          \<and> map_of (multi_frame_messages (snd (parse_tp_dt frame src_addr now c)))
               (session_key (drop_bit 4 (data frame ! 0) AND 0x0F) src_addr) = None
          \<and> (bus_state_mutex c \<longrightarrow>
               session_key (drop_bit 4 (data frame ! 0) AND 0x0F) src_addr
                 \<notin> map_keys (active_bam_sessions (snd (parse_tp_dt frame src_addr now c))))
          \<and> (\<not> bus_state_mutex c \<longrightarrow>
               active_bam_sessions (snd (parse_tp_dt frame src_addr now c)) = active_bam_sessions c
               \<and> bus_busy (snd (parse_tp_dt frame src_addr now c)) = bus_busy c)
          \<and> printed (fst (parse_tp_dt frame src_addr now c)) = [])
       \<and> (data frame ! 0 AND 0x0F = 0 \<longrightarrow>
            parse_tp_dt frame src_addr now c = ([LogW ''Invalid sequence number''], c))"
proof (intro conjI impI)
  assume "data frame ! 0 AND 0x0F = 0"
  then show "parse_tp_dt frame src_addr now c = ([LogW ''Invalid sequence number''], c)"
    by (simp add: parse_tp_dt_def)
next
  let ?key = "session_key (drop_bit 4 (data frame ! 0) AND 0x0F) src_addr"
  assume nz: "data frame ! 0 AND 0x0F \<noteq> 0"
  have "unat (data frame ! 0 AND 0x0F) \<noteq> unat (dt_expected_seq (m\<lparr>last_activity_time := now\<rparr>))"
    using differs by (simp add: dt_expected_seq_unat)
  then have ne: "data frame ! 0 AND 0x0F \<noteq> dt_expected_seq (m\<lparr>last_activity_time := now\<rparr>)"
    by auto
  have le: "\<not> data frame ! 0 AND 0x0F > 15"
    using low_nibble_le [of "data frame ! 0"] by simp
  show *: "parse_tp_dt frame src_addr now c
      = ([LogW ''Out of sequence packet''], release_bus ?key (erase_session ?key c))"
    using nz ne le live by (simp add: parse_tp_dt_def Let_def)
  show "map_of (multi_frame_messages (snd (parse_tp_dt frame src_addr now c))) ?key = None"
    unfolding * by simp
  show "?key \<notin> map_keys (active_bam_sessions (snd (parse_tp_dt frame src_addr now c)))"
    if "bus_state_mutex c"
    unfolding * using that by simp
  show "active_bam_sessions (snd (parse_tp_dt frame src_addr now c)) = active_bam_sessions c"
    if "\<not> bus_state_mutex c"
    unfolding * using that by (simp add: release_bus_def erase_session_def)
  show "bus_busy (snd (parse_tp_dt frame src_addr now c)) = bus_busy c"
    if "\<not> bus_state_mutex c"
    unfolding * using that by (simp add: release_bus_def erase_session_def)
  show "printed (fst (parse_tp_dt frame src_addr now c)) = []"
    unfolding * by (simp add: printed_def)
qed

text \<open>
  The session of the counterexample receives sequence 2 where 1 is expected, and is
  destroyed; it receives sequence 0, and stays; it receives sequence 2 while another
  task holds the mutex, and leaves the table but keeps the bus.
\<close>

theorem out_of_sequence_destroys_session_witness:
  "parse_tp_dt \<lparr>can_id = 0x98EBFF32, can_dlc = 8, data = [0x22, 8, 9, 10, 11, 12, 13, 14]\<rparr> 0x32 6
       \<lparr>source_address = 0x10, bus_busy = True, bus_busy_timeout = 1105,
        multi_frame_messages =
         [(0x0232, \<lparr>buffer = [], total_size = 21, msg_pgn = 0xFEDA, source_addr = 0x32,
                    session_number = 2, packets_received = 0, total_packets = 3,
                    complete = False, last_activity_time = 5\<rparr>)],
        active_bam_sessions = [(0x0232, True)], session_index = 0, bus_state_mutex = True\<rparr>
     = ([LogW ''Out of sequence packet''],
       \<lparr>source_address = 0x10, bus_busy = False, bus_busy_timeout = 1105,
        multi_frame_messages = [], active_bam_sessions = [], session_index = 0, bus_state_mutex = True\<rparr>)
   \<and> parse_tp_dt \<lparr>can_id = 0x98EBFF32, can_dlc = 8, data = [0x20, 1, 2, 3, 4, 5, 6, 7]\<rparr> 0x32 6
       \<lparr>source_address = 0x10, bus_busy = True, bus_busy_timeout = 1105,
        multi_frame_messages =
         [(0x0232, \<lparr>buffer = [], total_size = 21, msg_pgn = 0xFEDA, source_addr = 0x32,
                    session_number = 2, packets_received = 0, total_packets = 3,
                    complete = False, last_activity_time = 5\<rparr>)],
        active_bam_sessions = [(0x0232, True)], session_index = 0, bus_state_mutex = True\<rparr>
     = ([LogW ''Invalid sequence number''],
       \<lparr>source_address = 0x10, bus_busy = True, bus_busy_timeout = 1105,
        multi_frame_messages =
         [(0x0232, \<lparr>buffer = [], total_size = 21, msg_pgn = 0xFEDA, source_addr = 0x32,
                    session_number = 2, packets_received = 0, total_packets = 3,
                    complete = False, last_activity_time = 5\<rparr>)],
        active_bam_sessions = [(0x0232, True)], session_index = 0, bus_state_mutex = True\<rparr>)
   \<and> parse_tp_dt \<lparr>can_id = 0x98EBFF32, can_dlc = 8, data = [0x22, 8, 9, 10, 11, 12, 13, 14]\<rparr> 0x32 6
       \<lparr>source_address = 0x10, bus_busy = True, bus_busy_timeout = 1105,
        multi_frame_messages =
         [(0x0232, \<lparr>buffer = [], total_size = 21, msg_pgn = 0xFEDA, source_addr = 0x32,
                    session_number = 2, packets_received = 0, total_packets = 3,
                    complete = False, last_activity_time = 5\<rparr>)],
        active_bam_sessions = [(0x0232, True)], session_index = 0, bus_state_mutex = False\<rparr>
     = ([LogW ''Out of sequence packet''],
       \<lparr>source_address = 0x10, bus_busy = True, bus_busy_timeout = 1105,
        multi_frame_messages = [], active_bam_sessions = [(0x0232, True)], session_index = 0,
        bus_state_mutex = False\<rparr>)"
proof -
  let ?c = "\<lparr>source_address = 0x10, bus_busy = True, bus_busy_timeout = 1105,
        multi_frame_messages =
         [(0x0232, \<lparr>buffer = [], total_size = 21, msg_pgn = 0xFEDA, source_addr = 0x32,
                    session_number = 2, packets_received = 0, total_packets = 3,
                    complete = False, last_activity_time = 5\<rparr>)],
        active_bam_sessions = [(0x0232, True)], session_index = 0, bus_state_mutex = True\<rparr>"
  let ?f = "\<lparr>can_id = 0x98EBFF32, can_dlc = 8, data = [0x22, 8, 9, 10, 11, 12, 13, 14]\<rparr>"
  let ?g = "\<lparr>can_id = 0x98EBFF32, can_dlc = 8, data = [0x20, 1, 2, 3, 4, 5, 6, 7]\<rparr>"
  let ?m = "\<lparr>buffer = [], total_size = 21, msg_pgn = 0xFEDA, source_addr = 0x32,
                    session_number = 2, packets_received = 0, total_packets = 3,
                    complete = False, last_activity_time = 5\<rparr>"
  have a: "map_of (multi_frame_messages ?c)
             (session_key (drop_bit 4 (data ?f ! 0) AND 0x0F) 0x32) = Some ?m"
    by (simp add: session_key_def)
  have b: "unat (data ?f ! 0 AND 0x0F) \<noteq> unat (packets_received ?m) mod 15 + 1"
    by simp
  have a': "map_of (multi_frame_messages ?c)
             (session_key (drop_bit 4 (data ?g ! 0) AND 0x0F) 0x32) = Some ?m"
    by (simp add: session_key_def)
  have b': "unat (data ?g ! 0 AND 0x0F) \<noteq> unat (packets_received ?m) mod 15 + 1"
    by simp
  have a'': "map_of (multi_frame_messages (?c\<lparr>bus_state_mutex := False\<rparr>))
             (session_key (drop_bit 4 (data ?f ! 0) AND 0x0F) 0x32) = Some ?m"
    by (simp add: session_key_def)
  show ?thesis
    using out_of_sequence_destroys_session [OF a b, of 6]
      out_of_sequence_destroys_session [OF a' b', of 6]
      out_of_sequence_destroys_session [OF a'' b, of 6]
    by (simp add: session_key_def release_bus_def erase_session_def map_erase_def)
qed

subsection \<open>C6: the overflow path keeps the bus owner\<close>

text \<open>
  C6 does not hold of the code.  The teardown at lines 347-352 erases the session and
  returns without the release block that the other teardowns run.  Node \<open>0x32\<close>
  announces 7 bytes in 5 packets; the first data frame fills the message, the second
  one starts at position 7, which is not below the size: afterwards the table is empty
  while the key \<open>0x0232\<close> still owns the bus and \<open>bus_busy\<close> is still set.
\<close>

theorem overflow_keeps_bus_owner:
  "run [Decode \<lparr>can_id = 0x98ECFF32, can_dlc = 8, data = [0x20, 7, 0, 5, 0xFF, 0xDA, 0xFE, 0]\<rparr> 5,
        Decode \<lparr>can_id = 0x98EBFF32, can_dlc = 8, data = [0x21, 1, 2, 3, 4, 5, 6, 7]\<rparr> 6,
        Decode \<lparr>can_id = 0x98EBFF32, can_dlc = 8, data = [0x22, 8, 9, 10, 11, 12, 13, 14]\<rparr> 7]
       (new_Controller 0x10)
   = \<lparr>source_address = 0x10, bus_busy = True, bus_busy_timeout = 1505,
      multi_frame_messages = [], active_bam_sessions = [(0x0232, True)], session_index = 0, bus_state_mutex = True\<rparr>
   \<and> \<not> owners_have_sessions
        (run [Decode \<lparr>can_id = 0x98ECFF32, can_dlc = 8, data = [0x20, 7, 0, 5, 0xFF, 0xDA, 0xFE, 0]\<rparr> 5,
              Decode \<lparr>can_id = 0x98EBFF32, can_dlc = 8, data = [0x21, 1, 2, 3, 4, 5, 6, 7]\<rparr> 6,
              Decode \<lparr>can_id = 0x98EBFF32, can_dlc = 8, data = [0x22, 8, 9, 10, 11, 12, 13, 14]\<rparr> 7]
           (new_Controller 0x10))"
  by (simp add: run_def receive_defs Let_def owners_have_sessions_def map_keys_def word_le_nat_alt)

subsection \<open>C4: an announce of size 0\<close>

lemma is_session_valid_sessions:
  "set (multi_frame_messages (snd (is_session_valid session src_addr now c))) \<subseteq> set (multi_frame_messages c)"
  by (auto simp: is_session_valid_def Let_def map_erase_def split: option.splits)

lemma cleanup_sessions_subset:
  "set (multi_frame_messages (snd (cleanup_stale_sessions now c))) \<subseteq> set (multi_frame_messages c)"
  unfolding cleanup_sessions_keys by auto

lemma cleanup_nothing_stale:
  assumes "filter (\<lambda>p. stale now (snd p)) (multi_frame_messages c) = []"
  shows "cleanup_stale_sessions now c = ([], c)"
  using assms by (simp add: cleanup_stale_sessions_def)

lemma is_session_valid_nothing_stale:
  assumes "filter (\<lambda>p. stale now (snd p)) (multi_frame_messages c) = []"
  shows "snd (is_session_valid session src_addr now c) = c"
proof -
  have "\<not> stale now m" if "map_of (multi_frame_messages c) k = Some m" for k m
    using assms map_of_SomeD [OF that] by (auto simp: filter_empty_conv)
  then show ?thesis
    by (auto simp: is_session_valid_def Let_def split: option.splits)
qed

text \<open>
  C4, as stated, fails twice.  An RTS announce (control code 1) of size 0 opens a
  session: that branch has no check of the size.  A BAM announce of size 0 is rejected
  only after the sweep, which here removes the stale session of another node, so the
  table is not unchanged.
\<close>

theorem zero_size_announce_counterexample:
  "cm_message_size \<lparr>can_id = 0x98ECFF32, can_dlc = 8, data = [0x21, 0, 0, 0, 0xFF, 0xDA, 0xFE, 0]\<rparr> = 0
   \<and> parse_tp_cm \<lparr>can_id = 0x98ECFF32, can_dlc = 8, data = [0x21, 0, 0, 0, 0xFF, 0xDA, 0xFE, 0]\<rparr>
        0x32 5 (new_Controller 0x10)
      = ([], \<lparr>source_address = 0x10, bus_busy = False, bus_busy_timeout = 0,
              multi_frame_messages =
                [(0x0232, \<lparr>buffer = [], total_size = 0, msg_pgn = 0xFEDA, source_addr = 0x32,
                           session_number = 2, packets_received = 0, total_packets = 0,
                           complete = False, last_activity_time = 5\<rparr>)],
              active_bam_sessions = [], session_index = 0, bus_state_mutex = True\<rparr>)
   \<and> cm_message_size \<lparr>can_id = 0x98ECFF32, can_dlc = 8, data = [0x20, 0, 0, 0, 0xFF, 0xDA, 0xFE, 0]\<rparr> = 0
   \<and> parse_tp_cm \<lparr>can_id = 0x98ECFF32, can_dlc = 8, data = [0x20, 0, 0, 0, 0xFF, 0xDA, 0xFE, 0]\<rparr>
        0x32 2000
        \<lparr>source_address = 0x10, bus_busy = True, bus_busy_timeout = 1105,
         multi_frame_messages =
           [(0x0340, \<lparr>buffer = [], total_size = 21, msg_pgn = 0xFEDA, source_addr = 0x40,
                      session_number = 3, packets_received = 0, total_packets = 3,
                      complete = False, last_activity_time = 5\<rparr>)],
         active_bam_sessions = [(0x0340, True)], session_index = 0, bus_state_mutex = True\<rparr>
      = ([LogW ''Removing stale session'', LogW ''Invalid BAM parameters''],
         \<lparr>source_address = 0x10, bus_busy = False, bus_busy_timeout = 1105,
          multi_frame_messages = [], active_bam_sessions = [], session_index = 0, bus_state_mutex = True\<rparr>)"
  by (auto simp: receive_defs Let_def)

text \<open>
  C4, amended: a BAM announce (control code 0) whose announced size is 0 is rejected with
  a warning and opens no session: every entry of the session table afterwards was in
  it before, and when no entry is stale at that time the whole state is unchanged.
  (The stale entries are swept before the size is looked at.)
\<close>

theorem zero_size_bam_is_rejected:
  assumes bam: "data frame ! 0 AND 0x0F = 0"
      and zero: "cm_message_size frame = 0"
  shows "fst (parse_tp_cm frame src_addr now c) \<noteq> []
       \<and> last (fst (parse_tp_cm frame src_addr now c))
           \<in> {LogW ''Invalid or busy session'', LogW ''Invalid BAM parameters''}
       \<and> set (multi_frame_messages (snd (parse_tp_cm frame src_addr now c)))
           \<subseteq> set (multi_frame_messages c)
       \<and> (filter (\<lambda>p. stale now (snd p)) (multi_frame_messages c) = [] \<longrightarrow>
            snd (parse_tp_cm frame src_addr now c) = c)"
proof -
  let ?s = "drop_bit 4 (data frame ! 0) AND 0x0F"
  let ?v = "is_session_valid ?s src_addr now c"
  show ?thesis
  proof (cases "fst ?v")
    case False
    then have "parse_tp_cm frame src_addr now c = ([LogW ''Invalid or busy session''], snd ?v)"
      by (simp add: parse_tp_cm_def Let_def split_beta)
    moreover have "snd ?v = c"
      using False by (auto simp: is_session_valid_def Let_def split: option.splits if_splits)
    ultimately show ?thesis by simp
  next
    case True
    then have *: "parse_tp_cm frame src_addr now c
        = (fst (cleanup_stale_sessions now (snd ?v)) @ [LogW ''Invalid BAM parameters''],
           snd (cleanup_stale_sessions now (snd ?v)))"
      using bam zero by (simp add: parse_tp_cm_def Let_def split_beta)
    have "set (multi_frame_messages (snd (cleanup_stale_sessions now (snd ?v))))
            \<subseteq> set (multi_frame_messages c)"
      using cleanup_sessions_subset [of now "snd ?v"] is_session_valid_sessions [of ?s src_addr now c]
      by blast
    moreover have "snd (cleanup_stale_sessions now (snd ?v)) = c"
      if "filter (\<lambda>p. stale now (snd p)) (multi_frame_messages c) = []"
      using that by (simp add: is_session_valid_nothing_stale cleanup_nothing_stale)
    ultimately show ?thesis unfolding * by simp
  qed
qed

text \<open>The same announce at time 100, when the other session is not yet stale.\<close>

theorem zero_size_bam_is_rejected_witness:
  "parse_tp_cm \<lparr>can_id = 0x98ECFF32, can_dlc = 8, data = [0x20, 0, 0, 0, 0xFF, 0xDA, 0xFE, 0]\<rparr>
        0x32 100
        \<lparr>source_address = 0x10, bus_busy = True, bus_busy_timeout = 1105,
         multi_frame_messages =
           [(0x0340, \<lparr>buffer = [], total_size = 21, msg_pgn = 0xFEDA, source_addr = 0x40,
                      session_number = 3, packets_received = 0, total_packets = 3,
                      complete = False, last_activity_time = 5\<rparr>)],
         active_bam_sessions = [(0x0340, True)], session_index = 0, bus_state_mutex = True\<rparr>
      = ([LogW ''Invalid BAM parameters''],
         \<lparr>source_address = 0x10, bus_busy = True, bus_busy_timeout = 1105,
         multi_frame_messages =
           [(0x0340, \<lparr>buffer = [], total_size = 21, msg_pgn = 0xFEDA, source_addr = 0x40,
                      session_number = 3, packets_received = 0, total_packets = 3,
                      complete = False, last_activity_time = 5\<rparr>)],
         active_bam_sessions = [(0x0340, True)], session_index = 0, bus_state_mutex = True\<rparr>)"
proof -
  let ?f = "\<lparr>can_id = 0x98ECFF32, can_dlc = 8, data = [0x20, 0, 0, 0, 0xFF, 0xDA, 0xFE, 0]\<rparr>"
  let ?c = "\<lparr>source_address = 0x10, bus_busy = True, bus_busy_timeout = 1105,
         multi_frame_messages =
           [(0x0340, \<lparr>buffer = [], total_size = 21, msg_pgn = 0xFEDA, source_addr = 0x40,
                      session_number = 3, packets_received = 0, total_packets = 3,
                      complete = False, last_activity_time = 5\<rparr>)],
         active_bam_sessions = [(0x0340, True)], session_index = 0, bus_state_mutex = True\<rparr>"
  have a: "data ?f ! 0 AND 0x0F = 0" by simp
  have b: "cm_message_size ?f = 0" by (simp add: cm_message_size_def)
  have c: "filter (\<lambda>p. stale 100 (snd p)) (multi_frame_messages ?c) = []"
    by (simp add: stale_def SESSION_TIMEOUT_MS_def)
  have d: "fst (parse_tp_cm ?f 0x32 100 ?c) = [LogW ''Invalid BAM parameters'']"
    by (simp add: receive_defs Let_def)
  show ?thesis
    using zero_size_bam_is_rejected [OF a b, where src_addr = "0x32" and now = 100 and c = ?c] c d
    by (simp add: prod_eq_iff)
qed

subsection \<open>C8: the size of a session's buffer\<close>

lemma copy_bound:
  fixes start total :: "32 word"
  assumes "start < total"
  shows "unat (start + (if total - start < 7 then total - start else 7)) \<le> unat total"
    and "unat (start + (if total - start < 7 then total - start else 7))
          = unat start + unat (if total - start < 7 then total - start else 7)"
  using assms by (auto split: if_splits) unat_arith+

lemma length_memcpy: "length (memcpy dst pos src n) \<le> max (length dst) (pos + n)"
  by (auto simp: memcpy_def)

lemma length_resize [simp]: "length (resize n v) = n"
  by (auto simp: resize_def)

lemma set_map_put: "set (map_put k v m) \<subseteq> insert (k, v) (set m)"
  by (induction k v m rule: map_put.induct) auto

lemma sessions_bounded_new [simp]: "sessions_bounded (new_Controller a)"
  by (simp add: sessions_bounded_def new_Controller_def)

lemma sessions_bounded_cong:
  "multi_frame_messages c' = multi_frame_messages c \<Longrightarrow> sessions_bounded c' = sessions_bounded c"
  by (simp add: sessions_bounded_def)

lemma sessions_bounded_subset:
  "sessions_bounded c \<Longrightarrow> set (multi_frame_messages c') \<subseteq> set (multi_frame_messages c)
     \<Longrightarrow> sessions_bounded c'"
  by (auto simp: sessions_bounded_def)

lemma sessions_bounded_put:
  "sessions_bounded c \<Longrightarrow> session_bounded v
     \<Longrightarrow> sessions_bounded (c\<lparr>multi_frame_messages := map_put k v (multi_frame_messages c)\<rparr>)"
  using set_map_put [of k v "multi_frame_messages c"] by (auto simp: sessions_bounded_def)

lemma sessions_bounded_lookup:
  "sessions_bounded c \<Longrightarrow> map_of (multi_frame_messages c) k = Some m \<Longrightarrow> session_bounded m"
  by (force simp: sessions_bounded_def dest: map_of_SomeD)

lemma announced_size_bounded: "unat (ucast (x :: 16 word) :: 32 word) \<le> 65535"
proof -
  have "unat x < 65536" using unsigned_less [of x, where 'a = nat] by simp
  then show ?thesis by (simp add: unsigned_ucast_eq take_bit_nat_eq_self)
qed

lemma sessions_bounded_open:
  "sessions_bounded c \<Longrightarrow> sessions_bounded (open_session frame session src_addr now c)"
  unfolding open_session_def
  by (rule sessions_bounded_put) (simp_all add: session_bounded_def announced_size_bounded)

lemma sessions_bounded_release [simp]:
  "sessions_bounded (release_bus k c) = sessions_bounded c"
  by (rule sessions_bounded_cong) simp

lemma sessions_bounded_erase:
  "sessions_bounded c \<Longrightarrow> sessions_bounded (erase_session k c)"
  using set_map_erase [of k "multi_frame_messages c"] by (auto simp: sessions_bounded_def)

lemma sessions_bounded_bus [simp]:
  "sessions_bounded (c\<lparr>bus_busy := b\<rparr>) = sessions_bounded c"
  "sessions_bounded (c\<lparr>bus_busy_timeout := t\<rparr>) = sessions_bounded c"
  "sessions_bounded (c\<lparr>active_bam_sessions := a\<rparr>) = sessions_bounded c"
  "sessions_bounded (c\<lparr>session_index := i\<rparr>) = sessions_bounded c"
  by (simp_all add: sessions_bounded_def)

lemma sessions_bounded_is_session_valid:
  "sessions_bounded c \<Longrightarrow> sessions_bounded (snd (is_session_valid session src_addr now c))"
  by (erule sessions_bounded_subset) (rule is_session_valid_sessions)

lemma sessions_bounded_cleanup:
  "sessions_bounded c \<Longrightarrow> sessions_bounded (snd (cleanup_stale_sessions now c))"
  by (erule sessions_bounded_subset) (rule cleanup_sessions_subset)

lemma sessions_bounded_parse_tp_cm:
  assumes "sessions_bounded c"
  shows "sessions_bounded (snd (parse_tp_cm frame src_addr now c))"
proof -
  have c2: "sessions_bounded (snd (cleanup_stale_sessions now (snd (is_session_valid s src_addr now c))))" for s
    using assms by (intro sessions_bounded_cleanup sessions_bounded_is_session_valid)
  show ?thesis
    using assms c2
    by (simp add: parse_tp_cm_def Let_def split_beta sessions_bounded_open
        sessions_bounded_erase sessions_bounded_is_session_valid)
qed

lemma session_bounded_dt_store:
  assumes b: "session_bounded m" and start: "ucast (packets_received m) * 7 < total_size m"
  shows "session_bounded (dt_store m frame)"
proof -
  let ?start = "ucast (packets_received m) * 7 :: 32 word"
  let ?bytes = "if total_size m - ?start < 7 then total_size m - ?start else 7"
  let ?vec = "if length (buffer m) < unat (?start + ?bytes)
              then resize (unat (?start + ?bytes)) (buffer m) else buffer m"
  have e: "unat (?start + ?bytes) \<le> unat (total_size m)"
          "unat (?start + ?bytes) = unat ?start + unat ?bytes"
    using copy_bound [OF start] by simp_all
  have "length ?vec \<le> unat (total_size m)"
    using b e(1) by (simp add: session_bounded_def)
  then have "length (memcpy ?vec (unat ?start) (tl (data frame)) (unat ?bytes)) \<le> unat (total_size m)"
    using length_memcpy [of ?vec "unat ?start" "tl (data frame)" "unat ?bytes"] e by simp
  then show ?thesis
    using b by (simp add: session_bounded_def dt_store_def Let_def)
qed

lemma session_bounded_touch [simp]:
  "session_bounded (m\<lparr>last_activity_time := t\<rparr>) = session_bounded m"
  by (simp add: session_bounded_def)

lemma sessions_bounded_parse_tp_dt:
  assumes "sessions_bounded c"
  shows "sessions_bounded (snd (parse_tp_dt frame src_addr now c))"
proof -
  let ?k = "session_key (drop_bit 4 (data frame ! 0) AND 0x0F) src_addr"
  show ?thesis
  proof (cases "map_of (multi_frame_messages c) ?k")
    case None
    then show ?thesis using assms by (simp add: parse_tp_dt_def Let_def)
  next
    case (Some m0)
    let ?m = "m0\<lparr>last_activity_time := now\<rparr>"
    have b: "session_bounded ?m"
      using sessions_bounded_lookup [OF assms Some] by simp
    have st: "session_bounded (dt_store ?m frame)" if "\<not> total_size m0 \<le> ucast (packets_received m0) * 7"
      using that by (intro session_bounded_dt_store b) (simp add: not_le)
    show ?thesis
      using assms Some st
      by (simp add: parse_tp_dt_def Let_def sessions_bounded_erase sessions_bounded_put)
  qed
qed

lemma sessions_bounded_decode:
  "sessions_bounded c \<Longrightarrow> sessions_bounded (snd (decode_j1939_message frame now c))"
  by (simp add: decode_j1939_message_def Let_def sessions_bounded_parse_tp_cm sessions_bounded_parse_tp_dt)

lemma sessions_bounded_perform:
  "sessions_bounded c \<Longrightarrow> sessions_bounded (perform op c)"
proof (cases op)
  case (Send_single pgn dst payload len uninit clock mcp)
  assume "sessions_bounded c"
  then show ?thesis unfolding Send_single
    by (auto simp: send_single_frame_message_def Let_def split_beta
        intro: sessions_bounded_cong [THEN iffD2])
next
  case (Send_multi pgn payload sz clock mcp)
  assume "sessions_bounded c"
  then show ?thesis unfolding Send_multi
    by (auto simp: send_multi_frame_message_def Let_def split_beta
        intro: sessions_bounded_cong [THEN iffD2])
next
  case (Other_task_holds_mutex held)
  assume "sessions_bounded c"
  then show ?thesis unfolding Other_task_holds_mutex
    by (simp add: sessions_bounded_def)
qed (simp_all add: sessions_bounded_decode sessions_bounded_parse_tp_cm sessions_bounded_parse_tp_dt
       sessions_bounded_cleanup sessions_bounded_is_session_valid
       sessions_bounded_cong [OF is_bus_available_fields(3)])

lemma sessions_bounded_run:
  "sessions_bounded c \<Longrightarrow> sessions_bounded (run ops c)"
  unfolding run_def by (induction ops arbitrary: c) (simp_all add: sessions_bounded_perform)

text \<open>
  C8, as stated, fails in its second bound: nothing checks the announced size, a 16-bit
  field.  An announce of \<open>0xFFFF\<close> bytes opens a session with \<open>total_size = 65535\<close>.
\<close>

theorem total_size_counterexample:
  "multi_frame_messages
     (run [Decode \<lparr>can_id = 0x98ECFF32, can_dlc = 8,
                   data = [0x20, 0xFF, 0xFF, 0, 0xFF, 0xDA, 0xFE, 0]\<rparr> 5]
        (new_Controller 0x10))
    = [(0x0232, \<lparr>buffer = [], total_size = 65535, msg_pgn = 0xFEDA, source_addr = 0x32,
                 session_number = 2, packets_received = 0, total_packets = 9363,
                 complete = False, last_activity_time = 5\<rparr>)]
   \<and> \<not> unat (65535 :: 32 word) \<le> 1785"
  by (simp add: run_def receive_defs Let_def)

text \<open>
  C8, amended: in every state that a sequence of calls reaches from a new controller,
  every session of the table has a buffer no longer than its \<open>total_size\<close>, and its
  \<open>total_size\<close> is at most 65535.
\<close>

theorem session_buffers_bounded:
  "sessions_bounded (run ops (new_Controller addr))"
  by (rule sessions_bounded_run) simp

text \<open>After an announce of 21 bytes and the first data frame the buffer holds 7 bytes.\<close>

theorem session_buffers_bounded_witness:
  "multi_frame_messages
     (run [Decode \<lparr>can_id = 0x98ECFF32, can_dlc = 8,
                   data = [0x20, 0x15, 0, 3, 0xFF, 0xDA, 0xFE, 0]\<rparr> 5,
           Decode \<lparr>can_id = 0x98EBFF32, can_dlc = 8, data = [0x21, 1, 2, 3, 4, 5, 6, 7]\<rparr> 6]
        (new_Controller 0x10))
    = [(0x0232, \<lparr>buffer = [1, 2, 3, 4, 5, 6, 7], total_size = 21, msg_pgn = 0xFEDA,
                 source_addr = 0x32, session_number = 2, packets_received = 1,
                 total_packets = 3, complete = False, last_activity_time = 6\<rparr>)]
   \<and> sessions_bounded
     (run [Decode \<lparr>can_id = 0x98ECFF32, can_dlc = 8,
                   data = [0x20, 0x15, 0, 3, 0xFF, 0xDA, 0xFE, 0]\<rparr> 5,
           Decode \<lparr>can_id = 0x98EBFF32, can_dlc = 8, data = [0x21, 1, 2, 3, 4, 5, 6, 7]\<rparr> 6]
        (new_Controller 0x10))
   \<and> session_bounded \<lparr>buffer = [1, 2, 3, 4, 5, 6, 7], total_size = 21, msg_pgn = 0xFEDA,
                 source_addr = 0x32, session_number = 2, packets_received = 1,
                 total_packets = 3, complete = False, last_activity_time = 6\<rparr>"
proof -
  let ?ops = "[Decode \<lparr>can_id = 0x98ECFF32, can_dlc = 8,
                   data = [0x20, 0x15, 0, 3, 0xFF, 0xDA, 0xFE, 0]\<rparr> 5,
           Decode \<lparr>can_id = 0x98EBFF32, can_dlc = 8, data = [0x21, 1, 2, 3, 4, 5, 6, 7]\<rparr> 6]"
  have t: "multi_frame_messages (run ?ops (new_Controller 0x10))
    = [(0x0232, \<lparr>buffer = [1, 2, 3, 4, 5, 6, 7], total_size = 21, msg_pgn = 0xFEDA,
                 source_addr = 0x32, session_number = 2, packets_received = 1,
                 total_packets = 3, complete = False, last_activity_time = 6\<rparr>)]"
    by (simp add: run_def receive_defs Let_def word_le_nat_alt)
  have b: "sessions_bounded (run ?ops (new_Controller 0x10))"
    by (rule session_buffers_bounded)
  from b have "session_bounded \<lparr>buffer = [1, 2, 3, 4, 5, 6, 7], total_size = 21, msg_pgn = 0xFEDA,
                 source_addr = 0x32, session_number = 2, packets_received = 1,
                 total_packets = 3, complete = False, last_activity_time = 6\<rparr>"
    unfolding sessions_bounded_def t by simp
  with t b show ?thesis by simp
qed

subsection \<open>C2: frames on the wire\<close>

text \<open>The identifiers and the nibbles of the transport frames, bit by bit.\<close>

lemma mask_29: "(0x1FFFFFFF :: 32 word) = mask 29" by (simp add: mask_eq_exp_minus_1)

lemma ucast8_and [simp]: "(ucast (src :: 8 word) :: 32 word) AND 0xFF = ucast src"
  unfolding mask_FF by (rule bit_word_eqI) (auto simp: bit_simps dest: bit_imp_le_length)

lemma ucast8_drop [simp]: "drop_bit 8 (ucast (src :: 8 word) :: 32 word) = 0"
  by (rule bit_word_eqI) (auto simp: bit_simps dest: bit_imp_le_length)

lemma ucast8_drop16 [simp]: "drop_bit 16 (ucast (src :: 8 word) :: 32 word) = 0"
  by (rule bit_word_eqI) (auto simp: bit_simps dest: bit_imp_le_length)

lemma ucast8_mask29 [simp]: "(ucast (src :: 8 word) :: 32 word) AND 0x1FFFFFFF = ucast src"
  unfolding mask_29 by (rule bit_word_eqI) (auto simp: bit_simps dest: bit_imp_le_length)

lemma ucast8_flag [simp]: "(ucast (src :: 8 word) :: 32 word) AND 0x80000000 = 0"
proof -
  have "(ucast src :: 32 word) AND 0x80000000 = (ucast src AND 0xFF) AND 0x80000000"
    by simp
  also have "\<dots> = ucast src AND (0xFF AND 0x80000000)"
    by (simp only: and.assoc)
  also have "\<dots> = 0" by simp
  finally show ?thesis .
qed

lemma ucast8_ucast [simp]: "(ucast (ucast (src :: 8 word) :: 32 word) :: 8 word) = src"
  by (rule bit_word_eqI) (auto simp: bit_simps)

lemma cm_id:
  fixes src :: "8 word"
  defines "ident \<equiv> (0x18EC0000 OR push_bit 8 0xFF OR ucast src) OR CAN_EFF_FLAG :: 32 word"
  shows "ident AND CAN_EFF_FLAG \<noteq> 0"
    and "ucast ((ident AND CAN_EFF_MASK) AND 0xFF) = src"
    and "decode_pgn (ident AND CAN_EFF_MASK) = PGN_TP_CM"
  unfolding ident_def CAN_EFF_FLAG_def CAN_EFF_MASK_def decode_pgn_def PGN_TP_CM_def
  by (simp_all add: bit.conj_disj_distrib2 Let_def)


lemma dt_id:
  fixes src :: "8 word"
  defines "ident \<equiv> (0x18EB0000 OR push_bit 8 0xFF OR ucast src) OR CAN_EFF_FLAG :: 32 word"
  shows "ident AND CAN_EFF_FLAG \<noteq> 0"
    and "ucast ((ident AND CAN_EFF_MASK) AND 0xFF) = src"
    and "decode_pgn (ident AND CAN_EFF_MASK) = PGN_TP_DT"
  unfolding ident_def CAN_EFF_FLAG_def CAN_EFF_MASK_def decode_pgn_def PGN_TP_DT_def
  by (simp_all add: bit.conj_disj_distrib2 Let_def)

lemma mask_0F: "(0x0F :: 8 word) = mask 4" by (simp add: mask_eq_exp_minus_1)

lemma nibble_bits:
  fixes a :: "8 word"
  assumes "a \<le> 15"
  shows "bit a n \<Longrightarrow> n < 4"
proof -
  have "a < 2 ^ 4" using assms by (simp add: word_less_nat_alt word_le_nat_alt)
  then have "a AND mask 4 = a" by (rule less_mask_eq)
  then have t: "take_bit 4 a = a" by (simp add: take_bit_eq_mask)
  assume "bit a n"
  then have "bit (take_bit 4 a) n" by (simp only: t)
  then show "n < 4" by (simp only: bit_take_bit_iff)
qed

lemma nibbles:
  fixes a b :: "8 word"
  assumes "a \<le> 15" "b \<le> 15"
  shows "(a OR push_bit 4 (b AND 0x0F)) AND 0x0F = a"
    and "drop_bit 4 (a OR push_bit 4 (b AND 0x0F)) AND 0x0F = b"
  unfolding mask_0F
  by (rule bit_word_eqI; auto simp: bit_simps dest: nibble_bits [OF assms(1)] nibble_bits [OF assms(2)])+

lemma valid_session_cases:
  assumes "is_valid_session s"
  obtains "s = 2" | "s = 3" | "s = 6" | "s = 7" | "s = 10" | "s = 11"
  using assms unfolding is_valid_session_def SESSION_A_def SESSION_B_def SESSION_C_def
    SESSION_D_def SESSION_E_def SESSION_F_def by blast

lemma bam_control_byte:
  assumes "is_valid_session s"
  shows "(0x20 OR push_bit 4 (s AND 0x0F)) AND 0x0F = 0"
    and "drop_bit 4 (0x20 OR push_bit 4 (s AND 0x0F)) AND 0x0F = s"
  using assms by (auto elim!: valid_session_cases)

lemma valid_session_le: "is_valid_session s \<Longrightarrow> s \<le> 15"
  by (auto elim!: valid_session_cases)

lemma working_sessions_valid: "i < 6 \<Longrightarrow> is_valid_session (working_sessions ! i)"
  by (auto simp: working_sessions_def is_valid_session_def less_Suc_eq numeral_nat
      SESSION_A_def SESSION_B_def SESSION_C_def SESSION_D_def SESSION_E_def SESSION_F_def)

lemma size_bytes:
  fixes sz :: "16 word"
  shows "ucast (ucast (sz AND 0xFF) :: 8 word) OR push_bit 8 (ucast (ucast (drop_bit 8 sz AND 0xFF) :: 8 word)) = sz"
proof -
  have m: "(0xFF :: 16 word) = mask 8" by (simp add: mask_eq_exp_minus_1)
  show ?thesis unfolding m
    by (rule bit_word_eqI) (auto simp: bit_simps)
qed

lemma pgn_bytes:
  fixes pgn :: "32 word"
  shows "ucast (ucast (pgn AND 0xFF) :: 8 word)
         OR push_bit 8 (ucast (ucast (drop_bit 8 pgn AND 0xFF) :: 8 word))
         OR push_bit 16 (ucast (ucast (drop_bit 16 pgn AND 0xFF) :: 8 word))
       = pgn AND 0xFFFFFF"
proof -
  have m: "(0xFFFFFF :: 32 word) = mask 24" by (simp add: mask_eq_exp_minus_1)
  show ?thesis unfolding m mask_FF
  proof (rule bit_word_eqI)
    fix n :: nat
    consider "n < 8" | "8 \<le> n" "n < 16" | "16 \<le> n" by linarith
    then show "bit ((ucast (ucast (pgn AND mask 8) :: 8 word)
         OR push_bit 8 (ucast (ucast (drop_bit 8 pgn AND mask 8) :: 8 word))
         OR push_bit 16 (ucast (ucast (drop_bit 16 pgn AND mask 8) :: 8 word))) :: 32 word) n
       = bit (pgn AND mask 24) n"
      by cases (auto simp: bit_simps)
  qed
qed

subsection \<open>C2: the announce opens the session\<close>

lemma map_of_filter_None: "map_of m k = None \<Longrightarrow> map_of (filter Q m) k = None"
  by (auto simp: map_of_eq_None_iff)

lemma cleanup_keeps_absent:
  "map_of (multi_frame_messages c) k = None
     \<Longrightarrow> map_of (multi_frame_messages (snd (cleanup_stale_sessions now c))) k = None"
  unfolding cleanup_sessions_keys by (rule map_of_filter_None)

lemma cleanup_prints_nothing [simp]: "printed (fst (cleanup_stale_sessions now c)) = []"
  by (simp add: cleanup_stale_sessions_def printed_def Let_def)

lemma printed_append [simp]: "printed (xs @ ys) = printed xs @ printed ys"
  by (simp add: printed_def)

lemma unat_of_nat16: "k < 65536 \<Longrightarrow> unat (of_nat k :: 16 word) = k"
  by (simp add: unat_of_nat)

lemma unat_of_nat8: "k < 256 \<Longrightarrow> unat (of_nat k :: 8 word) = k"
  by (simp add: unat_of_nat)

lemma unat_ucast_8_16: "unat (ucast (b :: 8 word) :: 16 word) = unat b"
  by (simp add: unsigned_ucast_eq take_bit_nat_eq_self unsigned_less [where 'a = nat and w = b, simplified] less_trans [OF unsigned_less])


lemma bam_frame_data:
  "data (bam_frame s src pgn sz tp) ! 0 = 0x20 OR push_bit 4 (s AND 0x0F)"
  "data (bam_frame s src pgn sz tp) ! 1 = ucast (sz AND 0xFF)"
  "data (bam_frame s src pgn sz tp) ! 2 = ucast (drop_bit 8 sz AND 0xFF)"
  "data (bam_frame s src pgn sz tp) ! 3 = (if tp > 255 then 0xFF else of_nat tp AND 0xFF)"
  "data (bam_frame s src pgn sz tp) ! 5 = ucast (pgn AND 0xFF)"
  "data (bam_frame s src pgn sz tp) ! 6 = ucast (drop_bit 8 pgn AND 0xFF)"
  "data (bam_frame s src pgn sz tp) ! 7 = ucast (drop_bit 16 pgn AND 0xFF)"
  "can_id (bam_frame s src pgn sz tp) = (0x18EC0000 OR push_bit 8 0xFF OR ucast src) OR CAN_EFF_FLAG"
  by (simp_all add: bam_frame_def)

lemma bam_frame_id:
  "can_id (bam_frame s src pgn sz tp) AND CAN_EFF_FLAG \<noteq> 0"
  "ucast ((can_id (bam_frame s src pgn sz tp) AND CAN_EFF_MASK) AND 0xFF) = src"
  "decode_pgn (can_id (bam_frame s src pgn sz tp) AND CAN_EFF_MASK) = PGN_TP_CM"
  unfolding bam_frame_data(8) by (rule cm_id)+

lemma cm_message_size_bam [simp]: "cm_message_size (bam_frame s src pgn sz tp) = sz"
  unfolding cm_message_size_def bam_frame_data by (rule size_bytes)

lemma cm_pgn_bam [simp]: "cm_pgn (bam_frame s src pgn sz tp) = pgn AND 0xFFFFFF"
  unfolding cm_pgn_def bam_frame_data by (rule pgn_bytes)

lemma byte_of_nat_and: "(of_nat k :: 8 word) AND 0xFF = of_nat k"
proof -
  have m: "(0xFF :: 8 word) = mask 8" by (simp add: mask_eq_exp_minus_1)
  show ?thesis unfolding m by (rule bit_word_eqI) (auto simp: bit_simps)
qed

lemma cm_total_packets_bam:
  assumes "tp = (unat sz + 6) div 7" "tp \<le> 255"
  shows "unat (cm_total_packets (bam_frame s src pgn sz tp)) = tp"
proof -
  let ?f = "bam_frame s src pgn sz tp"
  have b3: "data ?f ! 3 = of_nat tp"
    using assms(2) by (simp add: bam_frame_data byte_of_nat_and)
  have u: "unat (ucast (data ?f ! 3) :: 16 word) = tp"
    using assms(2) by (simp add: b3 unat_ucast_8_16 unat_of_nat8)
  have c: "unat (cm_calculated_packets ?f) = tp"
    by (simp add: calculated_packets_unat assms(1))
  show ?thesis
    unfolding cm_total_packets_def Let_def using u c by simp
qed

lemma announce_opens:
  assumes s: "is_valid_session s"
      and len: "1 \<le> length P" "length P \<le> 1785"
      and sz: "unat sz = length P"
      and fresh: "map_of (multi_frame_messages rx) (session_key s src) = None"
  shows "\<exists>evs rx1 m.
           decode_j1939_message (bam_frame s src pgn sz ((length P + 6) div 7)) t rx = (evs, rx1)
           \<and> printed evs = []
           \<and> map_of (multi_frame_messages rx1) (session_key s src) = Some m
           \<and> collecting P sz pgn src 0 m"
proof -
  let ?tp = "(length P + 6) div 7"
  let ?f = "bam_frame s src pgn sz ?tp"
  let ?key = "session_key s src"
  have tp: "?tp \<le> 255" "?tp = (unat sz + 6) div 7" using len sz by simp_all
  have nz: "sz \<noteq> 0" using len sz by auto
  have dec: "decode_j1939_message ?f t rx = parse_tp_cm ?f src t rx"
    by (simp add: decode_j1939_message_def Let_def bam_frame_id)
  have valid: "is_session_valid s src t rx = (True, rx)"
    using s fresh by (simp add: is_session_valid_def Let_def)
  obtain evs c2 where cl: "cleanup_stale_sessions t rx = (evs, c2)"
    by (cases "cleanup_stale_sessions t rx")
  have evs: "printed evs = []"
    using cleanup_prints_nothing [of t rx] by (simp add: cl)
  have absent: "map_of (multi_frame_messages c2) ?key = None"
    using cleanup_keeps_absent [OF fresh, of t] by (simp add: cl)
  let ?m = "\<lparr>buffer = [], total_size = ucast (cm_message_size ?f), msg_pgn = cm_pgn ?f,
            source_addr = src, session_number = s, packets_received = 0,
            total_packets = cm_total_packets ?f, complete = False,
            last_activity_time = t\<rparr>"
  have cb: "data ?f ! 0 AND 0x0F = 0" "drop_bit 4 (data ?f ! 0) AND 0x0F = s"
    unfolding bam_frame_data(1) by (rule bam_control_byte [OF s])+
  have "parse_tp_cm ?f src t rx =
          (evs, open_session ?f s src t
                  (if bus_state_mutex c2 then
                     c2\<lparr>bus_busy := True,
                        bus_busy_timeout := t + ucast (cm_total_packets ?f) * 200 + 500,
                        active_bam_sessions := map_put ?key True (active_bam_sessions c2)\<rparr>
                   else c2))"
    using nz
    by (simp add: parse_tp_cm_def Let_def cb valid cl calculated_packets_zero del: if_split
          cong: if_cong)
  moreover have "map_of (multi_frame_messages (open_session ?f s src t c')) ?key = Some ?m" for c'
    by (simp add: open_session_def)
  moreover have "collecting P sz pgn src 0 ?m"
    using cm_total_packets_bam [OF tp(2) tp(1), of s src pgn]
    by (simp add: collecting_def)
  ultimately show ?thesis using dec evs by auto
qed

subsection \<open>C2: storing one data frame\<close>

lemma unat_ucast_16_32: "unat (ucast (w :: 16 word) :: 32 word) = unat w"
  by (simp add: unsigned_ucast_eq take_bit_nat_eq_self less_trans [OF unsigned_less])

lemma start_pos_unat:
  "unat (ucast (w :: 16 word) * 7 :: 32 word) = 7 * unat w"
proof -
  have "unat w < 65536" using unsigned_less [of w, where 'a = nat] by simp
  then have "unat (ucast w :: 32 word) * 7 < 2 ^ 32" by (simp add: unat_ucast_16_32)
  then show ?thesis
    by (simp add: unat_word_ariths unat_ucast_16_32)
qed

lemma bytes_to_copy_unat:
  fixes start total :: "32 word"
  assumes "start < total"
  shows "unat (if total - start < 7 then total - start else 7) = min 7 (unat total - unat start)"
    and "unat (start + (if total - start < 7 then total - start else 7))
           = unat start + min 7 (unat total - unat start)"
  using assms by (auto split: if_splits) unat_arith+

lemma dt_store_nat:
  assumes pr: "unat (packets_received m) = k"
      and ts: "unat (total_size m) = n"
      and lt: "7 * k < n"
  shows "dt_store m frame =
     m\<lparr>buffer := memcpy (if length (buffer m) < 7 * k + min 7 (n - 7 * k)
                         then resize (7 * k + min 7 (n - 7 * k)) (buffer m) else buffer m)
                  (7 * k) (tl (data frame)) (min 7 (n - 7 * k)),
       packets_received := packets_received m + 1\<rparr>"
proof -
  let ?start = "ucast (packets_received m) * 7 :: 32 word"
  have s: "unat ?start = 7 * k" by (simp add: start_pos_unat pr)
  have "?start < total_size m" using lt by (simp add: word_less_nat_alt s ts)
  from bytes_to_copy_unat [OF this] show ?thesis
    by (simp add: dt_store_def Let_def s ts)
qed


lemma seq_to_send_Suc: "seq_to_send (Suc k) = (of_nat (k mod 15 + 1), [])"
proof -
  have e: "(if Suc k > 15 then of_nat (((Suc k - 1) mod 15) + 1) else of_nat (Suc k) :: 8 word)
           = of_nat (k mod 15 + 1)"
    by (cases "Suc k > 15") simp_all
  have u: "unat (of_nat (k mod 15 + 1) :: 8 word) = k mod 15 + 1"
    by (rule unat_of_nat8) simp
  have "\<not> ((of_nat (k mod 15 + 1) :: 8 word) < 1 \<or> (of_nat (k mod 15 + 1) :: 8 word) > 15)"
    unfolding word_less_nat_alt u by simp
  then show ?thesis
    unfolding seq_to_send_def Let_def e by (simp only: if_False)
qed

lemma seq_field_le: "(of_nat (k mod 15 + 1) :: 8 word) \<le> 15"
  unfolding word_le_nat_alt by (subst unat_of_nat8) simp_all

lemma seq_field_nonzero: "(of_nat (k mod 15 + 1) :: 8 word) \<noteq> 0"
proof
  assume "(of_nat (k mod 15 + 1) :: 8 word) = 0"
  then have "unat (of_nat (k mod 15 + 1) :: 8 word) = 0" by simp
  then show False by (subst (asm) unat_of_nat8) simp_all
qed

lemma data_frame_Suc:
  assumes sz: "unat sz = length P" and lt: "7 * k < length P" and le: "length P \<le> 1785"
  shows "data (data_frame s src P sz (Suc k)) =
           (of_nat (k mod 15 + 1) OR push_bit 4 (s AND 0x0F))
           # take (min 7 (length P - 7 * k)) (drop (7 * k) P)
           @ replicate (7 - min 7 (length P - 7 * k)) 0xFF"
    and "can_id (data_frame s src P sz (Suc k)) = (0x18EB0000 OR push_bit 8 0xFF OR ucast src) OR CAN_EFF_FLAG"
proof -
  have off: "((Suc k - 1) * 7) mod 65536 = 7 * k" using lt le by simp
  have b: "(if 7 * k + 7 > length P then nat ((int (length P) - int (7 * k)) mod 256) else 7)
           = min 7 (length P - 7 * k)"
  proof (cases "7 * k + 7 > length P")
    case True
    then have "int (length P) - int (7 * k) = int (length P - 7 * k)" "length P - 7 * k < 256"
      using lt by auto
    then have "nat ((int (length P) - int (7 * k)) mod 256) = length P - 7 * k"
      by (metis mod_less nat_int of_nat_mod of_nat_numeral)
    with True show ?thesis by simp
  next
    case False
    then show ?thesis by simp
  qed
  show "data (data_frame s src P sz (Suc k)) =
           (of_nat (k mod 15 + 1) OR push_bit 4 (s AND 0x0F))
           # take (min 7 (length P - 7 * k)) (drop (7 * k) P)
           @ replicate (7 - min 7 (length P - 7 * k)) 0xFF"
    unfolding data_frame_def Let_def off sz b seq_to_send_Suc by simp
  show "can_id (data_frame s src P sz (Suc k)) = (0x18EB0000 OR push_bit 8 0xFF OR ucast src) OR CAN_EFF_FLAG"
    by (simp add: data_frame_def Let_def)
qed

lemma data_frame_id:
  "can_id (data_frame s src P sz seq) AND CAN_EFF_FLAG \<noteq> 0"
  "ucast ((can_id (data_frame s src P sz seq) AND CAN_EFF_MASK) AND 0xFF) = src"
  "decode_pgn (can_id (data_frame s src P sz seq) AND CAN_EFF_MASK) = PGN_TP_DT"
proof -
  have i: "can_id (data_frame s src P sz seq) = (0x18EB0000 OR push_bit 8 0xFF OR ucast src) OR CAN_EFF_FLAG"
    by (simp add: data_frame_def Let_def)
  show "can_id (data_frame s src P sz seq) AND CAN_EFF_FLAG \<noteq> 0"
    "ucast ((can_id (data_frame s src P sz seq) AND CAN_EFF_MASK) AND 0xFF) = src"
    "decode_pgn (can_id (data_frame s src P sz seq) AND CAN_EFF_MASK) = PGN_TP_DT"
    unfolding i by (rule dt_id)+
qed

lemma collecting_step:
  assumes c: "collecting P sz pgn src k m"
      and sz: "unat sz = length P" and lt: "7 * k < length P" and le: "length P \<le> 1785"
  shows "collecting P sz pgn src (Suc k)
           (dt_store (m\<lparr>last_activity_time := t\<rparr>) (data_frame s src P sz (Suc k)))"
proof -
  let ?n = "length P"
  let ?b = "min 7 (?n - 7 * k)"
  let ?m = "m\<lparr>last_activity_time := t\<rparr>"
  let ?f = "data_frame s src P sz (Suc k)"
  have pr: "unat (packets_received ?m) = k" using c by (simp add: collecting_def)
  have ts: "unat (total_size ?m) = ?n"
    using c sz by (simp add: collecting_def unat_ucast_16_32)
  have buf: "buffer ?m = take (7 * k) P" using c by (simp add: collecting_def)
  have lb: "length (buffer ?m) = 7 * k" using lt by (simp add: buf)
  have tl: "take ?b (tl (data ?f)) = take ?b (drop (7 * k) P)"
    unfolding data_frame_Suc(1) [OF sz lt le] using lt by simp
  have "memcpy (resize (7 * k + ?b) (buffer ?m)) (7 * k) (tl (data ?f)) ?b
          = take (7 * k) P @ take ?b (drop (7 * k) P)"
    using lt by (simp add: memcpy_def resize_def buf tl)
  also have "\<dots> = take (7 * k + ?b) P" by (simp add: take_add)
  also have "\<dots> = take (7 * Suc k) P"
  proof (cases "7 * k + 7 \<le> ?n")
    case True
    then have "7 * k + ?b = 7 * Suc k" by simp
    then show ?thesis by (simp only:)
  next
    case False
    then have "7 * k + ?b = ?n" using lt by (simp add: min_def)
    then show ?thesis using False by simp
  qed
  finally have mem: "memcpy (resize (7 * k + ?b) (buffer ?m)) (7 * k) (tl (data ?f)) ?b
          = take (7 * Suc k) P" .
  have "k < 65535" using lt le by simp
  then have inc: "unat (packets_received ?m + 1) = Suc k"
    using pr by (simp add: unat_word_ariths)
  have cond: "length (buffer ?m) < 7 * k + ?b" using lt lb by simp
  show ?thesis
    unfolding dt_store_nat [OF pr ts lt]
    using c inc mem cond by (simp add: collecting_def)
qed

subsection \<open>C2: the data frames rebuild the payload\<close>

lemma packets_cover: "k < (n + 6) div 7 \<Longrightarrow> 7 * k < (n::nat)"
  by (simp add: less_eq_div_iff_mult_less_eq)

lemma data_frame_step:
  assumes s: "is_valid_session s"
      and sz: "unat sz = length P" and le: "length P \<le> 1785" and lt: "7 * k < length P"
      and live: "map_of (multi_frame_messages c) (session_key s src) = Some m"
      and col: "collecting P sz pgn src k m"
  shows "decode_j1939_message (data_frame s src P sz (Suc k)) t c =
     (if (length P + 6) div 7 \<le> Suc k
      then (process_complete_message
              (dt_store (m\<lparr>last_activity_time := t\<rparr>) (data_frame s src P sz (Suc k))),
            release_bus (session_key s src) (erase_session (session_key s src) c))
      else ([], c\<lparr>multi_frame_messages :=
                    map_put (session_key s src)
                      (dt_store (m\<lparr>last_activity_time := t\<rparr>) (data_frame s src P sz (Suc k)))
                      (multi_frame_messages c)\<rparr>))"
proof -
  let ?f = "data_frame s src P sz (Suc k)"
  let ?q = "of_nat (k mod 15 + 1) :: 8 word"
  let ?m = "m\<lparr>last_activity_time := t\<rparr>"
  let ?m1 = "dt_store ?m ?f"
  have dec: "decode_j1939_message ?f t c = parse_tp_dt ?f src t c"
    by (simp add: decode_j1939_message_def Let_def data_frame_id PGN_TP_CM_def PGN_TP_DT_def)
  have b0: "data ?f ! 0 = ?q OR push_bit 4 (s AND 0x0F)"
    unfolding data_frame_Suc(1) [OF sz lt le] by simp
  have fb: "data ?f ! 0 AND 0x0F = ?q" "drop_bit 4 (data ?f ! 0) AND 0x0F = s"
    unfolding b0 by (rule nibbles [OF seq_field_le valid_session_le [OF s]])+
  have q: "?q \<noteq> 0" "\<not> ?q > 15"
    using seq_field_nonzero [of k] seq_field_le [of k] by (simp_all add: not_less)
  have uq: "unat ?q = k mod 15 + 1" by (rule unat_of_nat8) simp
  have "unat (dt_expected_seq ?m) = unat ?q"
    unfolding uq dt_expected_seq_unat using col by (simp add: collecting_def)
  then have ex: "dt_expected_seq ?m = ?q" by (rule word_unat_eq_iff [THEN iffD2])
  have "unat (ucast (packets_received ?m) * 7 :: 32 word) = 7 * k"
    using col by (simp add: start_pos_unat collecting_def)
  moreover have "unat (total_size ?m) = length P"
    using col sz by (simp add: collecting_def unat_ucast_16_32)
  ultimately have room: "\<not> total_size ?m \<le> ucast (packets_received ?m) * 7"
    using lt by (simp add: word_le_nat_alt)
  have col1: "collecting P sz pgn src (Suc k) ?m1"
    by (rule collecting_step [OF col sz lt le])
  then have fin: "total_packets ?m1 \<le> packets_received ?m1 \<longleftrightarrow> (length P + 6) div 7 \<le> Suc k"
    by (simp add: word_le_nat_alt collecting_def)
  show ?thesis
    unfolding dec
    using live q room fin
    by (simp add: parse_tp_dt_def Let_def fb ex)
qed


lemma data_frames_reassemble:
  assumes s: "is_valid_session s"
      and sz: "unat sz = length P" and le: "length P \<le> 1785"
  shows "k < (length P + 6) div 7
     \<Longrightarrow> map_of (multi_frame_messages c) (session_key s src) = Some m
     \<Longrightarrow> collecting P sz pgn src k m
     \<Longrightarrow> length ts = (length P + 6) div 7 - k
     \<Longrightarrow> printed (fst (decode_frames
            (zip (map (data_frame s src P sz) [Suc k..<Suc ((length P + 6) div 7)]) ts) c))
         = [\<lparr>json_pgn = pgn AND 0xFFFFFF, json_sender = src,
             json_size = Bytes (ucast sz), json_data = hex_bytes P\<rparr>]"
proof (induction ts arbitrary: k c m)
  case Nil
  then show ?case by simp
next
  case (Cons t ts)
  let ?tp = "(length P + 6) div 7"
  let ?key = "session_key s src"
  let ?f = "data_frame s src P sz (Suc k)"
  let ?m1 = "dt_store (m\<lparr>last_activity_time := t\<rparr>) ?f"
  have lt: "7 * k < length P" using Cons.prems(1) by (rule packets_cover)
  have col1: "collecting P sz pgn src (Suc k) ?m1"
    by (rule collecting_step [OF Cons.prems(3) sz lt le])
  have upt: "[Suc k..<Suc ?tp] = Suc k # [Suc (Suc k)..<Suc ?tp]"
    using Cons.prems(1) by (simp add: upt_conv_Cons)
  have z: "zip (map (data_frame s src P sz) [Suc k..<Suc ?tp]) (t # ts)
           = (?f, t) # zip (map (data_frame s src P sz) [Suc (Suc k)..<Suc ?tp]) ts"
    by (simp only: upt list.map zip_Cons_Cons)
  note step = data_frame_step [OF s sz le lt Cons.prems(2,3), of t]
  show ?case
  proof (cases "?tp \<le> Suc k")
    case True
    then have last: "Suc k = ?tp" using Cons.prems(1) by simp
    have "Suc (length ts) = ?tp - k" using Cons.prems(4) by simp
    then have "length ts = 0" unfolding last [symmetric] by simp
    then have ts: "ts = []" by simp
    have "length P \<le> 7 * ?tp" by arith
    then have buf: "buffer ?m1 = P"
      using col1 by (simp add: collecting_def last)
    have dec: "decode_j1939_message ?f t c
        = (process_complete_message ?m1, release_bus ?key (erase_session ?key c))"
      using step True by simp
    have "printed (fst (decode_frames ((?f, t) # zip (map (data_frame s src P sz) [Suc (Suc k)..<Suc ?tp]) ts) c))
        = printed (process_complete_message ?m1)"
      by (simp add: ts dec)
    also have "\<dots> = [\<lparr>json_pgn = pgn AND 0xFFFFFF, json_sender = src,
             json_size = Bytes (ucast sz), json_data = hex_bytes P\<rparr>]"
      using col1 buf by (simp add: process_complete_message_def printed_def collecting_def)
    finally show ?thesis unfolding z .
  next
    case False
    let ?c1 = "c\<lparr>multi_frame_messages := map_put ?key ?m1 (multi_frame_messages c)\<rparr>"
    have k1: "Suc k < ?tp" using False by simp
    have live1: "map_of (multi_frame_messages ?c1) ?key = Some ?m1" by simp
    have len: "length ts = ?tp - Suc k" using Cons.prems(4) by simp
    have dec: "decode_j1939_message ?f t c = ([], ?c1)"
      using step False by simp
    have "printed (fst (decode_frames ((?f, t) # zip (map (data_frame s src P sz) [Suc (Suc k)..<Suc ?tp]) ts) c))
        = printed (fst (decode_frames (zip (map (data_frame s src P sz) [Suc (Suc k)..<Suc ?tp]) ts) ?c1))"
      by (simp add: dec split_beta)
    also have "\<dots> = [\<lparr>json_pgn = pgn AND 0xFFFFFF, json_sender = src,
             json_size = Bytes (ucast sz), json_data = hex_bytes P\<rparr>]"
      by (rule Cons.IH [OF k1 live1 col1 len])
    finally show ?thesis unfolding z .
  qed
qed

lemma send_data_packets_frames:
  "send_data_packets seq tp s src P sz mcp k = (True, fs, evs)
     \<Longrightarrow> fs = map (data_frame s src P sz) [seq..<Suc tp]"
proof (induction seq tp s src P sz mcp k arbitrary: fs evs rule: send_data_packets.induct)
  case (1 seq tp s src P sz mcp k)
  show ?case
  proof (cases "seq \<le> tp")
    case False
    with "1.prems" show ?thesis by (subst (asm) send_data_packets.simps) simp
  next
    case True
    obtain sent evs1 k' where r: "send_retry 3 ''Failed to send packet'' mcp k = (sent, evs1, k')"
      by (cases "send_retry 3 ''Failed to send packet'' mcp k")
    obtain r' fs' evs' where rec: "send_data_packets (Suc seq) tp s src P sz mcp k' = (r', fs', evs')"
      by (cases "send_data_packets (Suc seq) tp s src P sz mcp k'")
    from "1.prems" True r rec have sent: "sent" and r': "r'" and fs: "fs = data_frame s src P sz seq # fs'"
      by (subst (asm) send_data_packets.simps, simp split: if_splits)+
    have "fs' = map (data_frame s src P sz) [Suc seq..<Suc tp]"
      using "1.IH" [OF True refl r [symmetric] _ _ ] sent rec r' by simp
    moreover have "[seq..<Suc tp] = seq # [Suc seq..<Suc tp]"
      using True by (metis upt_conv_Cons le_imp_less_Suc)
    ultimately show ?thesis unfolding fs by (simp only: list.map)
  qed
qed

subsection \<open>C2: the round trip of a message\<close>

text \<open>The definitions that a send from a concrete state unfolds.\<close>

lemma padding_5: "replicate 5 x = [x, x, x, x, x]"
  by (simp add: numeral_eq_Suc)

lemma send_retry_first: "mcp k \<Longrightarrow> send_retry 3 w mcp k = (True, [], Suc k)"
  by (simp add: numeral_3_eq_3)

lemmas send_defs =
  send_multi_frame_message_def send_single_frame_message_def multi_frame_gate_def
  single_frame_gate_def wait_for_bus_def
  is_bus_available_def new_Controller_def working_sessions_def bam_frame_def data_frame_def
  seq_to_send_def send_data_packets.simps send_retry_first memcpy_def CAN_EFF_FLAG_def
  padding_5

lemma bam_frames_print_payload:
  assumes len: "1 \<le> length P" "length P \<le> 1785"
      and sz: "unat sz = length P"
      and idx: "session_index tx < 6"
      and sent: "send_multi_frame_message pgn P sz clock mcp tx = (True, frames, evs, tx')"
      and fresh: "map_of (multi_frame_messages rx)
                    (session_key (working_sessions ! session_index tx) (source_address tx)) = None"
      and stamps: "length stamps = length frames"
  shows "printed (fst (decode_frames (zip frames stamps) rx))
         = [\<lparr>json_pgn = pgn AND 0xFFFFFF, json_sender = source_address tx,
             json_size = Bytes (of_nat (length P)), json_data = hex_bytes P\<rparr>]"
proof -
  let ?tp = "(length P + 6) div 7"
  let ?s = "working_sessions ! session_index tx"
  let ?src = "source_address tx"
  let ?key = "session_key ?s ?src"
  have s: "is_valid_session ?s" using idx by (rule working_sessions_valid)
  obtain avail evs0 c1 where w: "multi_frame_gate clock tx = (avail, evs0, c1)"
    by (cases "multi_frame_gate clock tx")
  have c1: "source_address c1 = ?src" "session_index c1 = session_index tx"
    using gate_fields(1,2) [of clock tx] by (simp_all add: w)
  obtain bam_sent evs1 k where r: "send_retry 3 ''Failed to send BAM, retry'' mcp 0 = (bam_sent, evs1, k)"
    by (cases "send_retry 3 ''Failed to send BAM, retry'' mcp 0")
  obtain r' fs evs2 where d: "send_data_packets (Suc 0) ?tp ?s ?src P sz mcp k = (r', fs, evs2)"
    by (cases "send_data_packets (Suc 0) ?tp ?s ?src P sz mcp k")
  from sent have fr: "frames = bam_frame ?s ?src pgn sz ?tp # fs" and r': "r'"
    by (simp_all add: send_multi_frame_message_def w r d c1 sz Let_def split: if_splits)
  have fs: "fs = map (data_frame ?s ?src P sz) [Suc 0..<Suc ?tp]"
    using send_data_packets_frames [of "Suc 0" ?tp ?s ?src P sz mcp k fs evs2] d r' by simp
  obtain t0 ts where ts: "stamps = t0 # ts" "length ts = ?tp - 0"
    using stamps unfolding fr fs by (cases stamps) simp_all
  obtain evsA rx1 m where
    a: "decode_j1939_message (bam_frame ?s ?src pgn sz ?tp) t0 rx = (evsA, rx1)"
       "printed evsA = []"
       "map_of (multi_frame_messages rx1) ?key = Some m"
       "collecting P sz pgn ?src 0 m"
    using announce_opens [OF s len sz fresh, of pgn t0] by blast
  have pos: "0 < ?tp" using len by simp
  have "printed (fst (decode_frames (zip frames stamps) rx))
        = printed (fst (decode_frames (zip (map (data_frame ?s ?src P sz) [Suc 0..<Suc ?tp]) ts) rx1))"
    unfolding fr ts(1) fs by (simp add: a split_beta)
  also have "\<dots> = [\<lparr>json_pgn = pgn AND 0xFFFFFF, json_sender = ?src,
             json_size = Bytes (ucast sz), json_data = hex_bytes P\<rparr>]"
    by (rule data_frames_reassemble [OF s sz len(2) pos a(3) a(4) ts(2)])
  also have "ucast sz = (of_nat (length P) :: 32 word)"
    unfolding sz [symmetric] by simp
  finally show ?thesis .
qed


lemma byte_less:
  "(ucast (x AND 0xFF) :: 8 word) < 240 \<longleftrightarrow> x AND (0xFF::32 word) < 240"
  unfolding mask_FF word_less_nat_alt
  by (simp add: unsigned_ucast_eq unsigned_take_bit_eq flip: take_bit_eq_mask)

lemma single_id_bits:
  fixes h g :: "32 word" and pf ps src :: "8 word"
  defines "x \<equiv> ((push_bit 27 h OR push_bit 16 (ucast pf) OR push_bit 8 (ucast ps) OR ucast src)
                  OR push_bit 31 g) AND mask 29"
  shows "x AND mask 8 = ucast src"
    and "drop_bit 16 x AND mask 8 = ucast pf"
    and "drop_bit 8 x AND mask 18 = push_bit 8 (ucast pf) OR ucast ps"
  unfolding x_def
  by (rule bit_word_eqI; auto simp: bit_simps dest: bit_imp_le_length)+

lemma single_id:
  fixes pf ps src :: "8 word"
  defines "x \<equiv> ((0x18000000 OR push_bit 16 (ucast pf) OR push_bit 8 (ucast ps) OR ucast src)
                  OR CAN_EFF_FLAG) AND CAN_EFF_MASK :: 32 word"
  shows "x AND 0xFF = ucast src"
    and "drop_bit 16 x AND 0xFF = ucast pf"
    and "drop_bit 8 x AND 0x3FFFF = push_bit 8 (ucast pf) OR ucast ps"
proof -
  have c: "(0x18000000 :: 32 word) = push_bit 27 3" "CAN_EFF_FLAG = push_bit 31 1"
    by (simp_all add: CAN_EFF_FLAG_def)
  show "x AND 0xFF = ucast src" "drop_bit 16 x AND 0xFF = ucast pf"
    "drop_bit 8 x AND 0x3FFFF = push_bit 8 (ucast pf) OR ucast ps"
    unfolding x_def c CAN_EFF_MASK_def mask_29 mask_FF mask_3FFFF by (rule single_id_bits)+
qed


lemma pgn_low_bytes:
  fixes pgn :: "32 word"
  shows "push_bit 8 (ucast (ucast (drop_bit 8 pgn AND 0xFF) :: 8 word)) OR ucast (ucast (pgn AND 0xFF) :: 8 word)
         = pgn AND 0xFFFF"
proof -
  have m: "(0xFFFF :: 32 word) = mask 16" by (simp add: mask_eq_exp_minus_1)
  show ?thesis unfolding m mask_FF
    by (rule bit_word_eqI) (auto simp: bit_simps)
qed

lemma pdu2_not_transport:
  fixes pf ps :: "8 word"
  assumes "\<not> pf < 240"
  shows "push_bit 8 (ucast pf) OR ucast ps \<noteq> PGN_TP_CM"
    and "push_bit 8 (ucast pf) OR ucast ps \<noteq> PGN_TP_DT"
    and "push_bit 8 (ucast pf) OR ucast ps \<noteq> PGN_REQUEST"
proof -
  have "drop_bit 8 (push_bit 8 (ucast pf) :: 32 word) = ucast pf"
    by (rule bit_word_eqI) (auto simp: bit_simps dest: bit_imp_le_length)
  then have d: "drop_bit 8 (push_bit 8 (ucast pf) OR ucast ps :: 32 word) = ucast pf"
    by simp
  have "pf = v" if "push_bit 8 (ucast pf) OR ucast ps = (w :: 32 word)" "drop_bit 8 w = ucast v" for w and v :: "8 word"
  proof -
    have "(ucast pf :: 32 word) = ucast v" using d that by simp
    then have "(ucast (ucast pf :: 32 word) :: 8 word) = ucast (ucast v :: 32 word)" by simp
    then show ?thesis by simp
  qed
  from this [of PGN_TP_CM "0xEC"] this [of PGN_TP_DT "0xEB"] this [of PGN_REQUEST "0xEA"] assms
  show "push_bit 8 (ucast pf) OR ucast ps \<noteq> PGN_TP_CM"
    "push_bit 8 (ucast pf) OR ucast ps \<noteq> PGN_TP_DT"
    "push_bit 8 (ucast pf) OR ucast ps \<noteq> PGN_REQUEST"
    by (auto simp: PGN_TP_CM_def PGN_TP_DT_def PGN_REQUEST_def)
qed

lemma single_frame_prints_payload:
  assumes len: "length P \<le> 8" and n: "unat len = length P"
      and pdu2: "240 \<le> drop_bit 8 pgn AND 0xFF"
      and sent: "send_single_frame_message pgn dst P len uninit clock mcp tx = (True, frames, evs, tx')"
      and stamps: "length stamps = length frames"
  shows "printed (fst (decode_frames (zip frames stamps) rx))
         = [\<lparr>json_pgn = pgn AND 0xFFFF, json_sender = source_address tx,
             json_size = SF, json_data = hex_bytes P\<rparr>]"
proof -
  let ?pf = "ucast (drop_bit 8 pgn AND 0xFF) :: 8 word"
  let ?ps = "ucast (pgn AND 0xFF) :: 8 word"
  let ?src = "source_address tx"
  let ?id = "(0x18000000 OR push_bit 16 (ucast ?pf) OR push_bit 8 (ucast ?ps) OR ucast ?src)
               OR CAN_EFF_FLAG :: 32 word"
  let ?frame = "\<lparr>can_id = ?id, can_dlc = len, data = memcpy uninit 0 P (unat len)\<rparr>"
  obtain avail evs0 c1 where w: "single_frame_gate clock tx = (avail, evs0, c1)"
    by (cases "single_frame_gate clock tx")
  have c1: "source_address c1 = ?src"
    using gate_fields(4) [of clock tx] by (simp add: w)
  from sent have fr: "frames = [?frame]"
    by (simp add: send_single_frame_message_def w c1 Let_def split: if_splits)
  obtain t0 where ts: "stamps = [t0]"
    using stamps unfolding fr by (cases stamps) simp_all
  have pf: "\<not> ?pf < 240"
    unfolding byte_less using pdu2 by (simp add: not_less)
  have flag: "?id AND CAN_EFF_FLAG \<noteq> 0"
  proof -
    have "?id AND CAN_EFF_FLAG = CAN_EFF_FLAG"
      by (simp add: bit.conj_disj_distrib2)
    then show ?thesis by (simp add: CAN_EFF_FLAG_def)
  qed
  have idem: "(a OR b) OR a = a OR b" for a b :: "32 word"
    by (metis or.assoc or.commute or.idem)
  have pgn: "decode_pgn (?id AND CAN_EFF_MASK) = push_bit 8 (ucast ?pf) OR ucast ?ps"
    unfolding decode_pgn_def Let_def single_id [of ?pf ?ps ?src] ucast8_ucast
    using pf by (simp only: if_False idem)
  have src: "ucast ((?id AND CAN_EFF_MASK) AND 0xFF) = ?src"
    unfolding single_id [of ?pf ?ps ?src] by simp
  have body: "take (unat (can_dlc ?frame)) (data ?frame) = P"
    using n by (simp add: memcpy_def)
  have "decode_j1939_message ?frame t0 rx
      = ([Printed \<lparr>json_pgn = push_bit 8 (ucast ?pf) OR ucast ?ps, json_sender = ?src,
                    json_size = SF, json_data = hex_bytes P\<rparr>], rx)"
    unfolding decode_j1939_message_def Let_def
    using flag pdu2_not_transport [OF pf, of ?ps] body
    by (simp only: pgn src can_frame.simps if_False simp_thms)
  then show ?thesis
    unfolding fr ts by (simp add: printed_def pgn_low_bytes)
qed

text \<open>
  C2, as stated, fails.  The frame that \<open>send_single_frame_message\<close> emits for the three
  bytes \<open>41 42 43\<close> is printed with the size \<open>SF\<close>, not 3.  And the frames of a
  multi-frame send of nine bytes print nothing on a receiver that still holds a live
  session under the key of the sender's session: the announce is refused and the data
  frames go into the old session.
\<close>

theorem round_trip_counterexample:
  "send_single_frame_message 0xFEDA 0xFF [0x41, 0x42, 0x43] 3 (replicate 8 0) (\<lambda>k. 0) (\<lambda>k. True)
       (new_Controller 0x32)
     = (True, [\<lparr>can_id = 0x98FEDA32, can_dlc = 3, data = [0x41, 0x42, 0x43, 0, 0, 0, 0, 0]\<rparr>],
        [], new_Controller 0x32)
   \<and> printed (fst (decode_frames
        [(\<lparr>can_id = 0x98FEDA32, can_dlc = 3, data = [0x41, 0x42, 0x43, 0, 0, 0, 0, 0]\<rparr>, 5)]
        (new_Controller 0x10)))
     = [\<lparr>json_pgn = 0xFEDA, json_sender = 0x32, json_size = SF, json_data = ''414243''\<rparr>]
   \<and> SF \<noteq> Bytes 3
   \<and> fst (snd (send_multi_frame_message 0xFEDA [1, 2, 3, 4, 5, 6, 7, 8, 9] 9 (\<lambda>k. 0) (\<lambda>k. True)
       (new_Controller 0x32)))
     = [\<lparr>can_id = 0x98ECFF32, can_dlc = 8, data = [0x20, 9, 0, 2, 0xFF, 0xDA, 0xFE, 0]\<rparr>,
        \<lparr>can_id = 0x98EBFF32, can_dlc = 8, data = [0x21, 1, 2, 3, 4, 5, 6, 7]\<rparr>,
        \<lparr>can_id = 0x98EBFF32, can_dlc = 8, data = [0x22, 8, 9, 0xFF, 0xFF, 0xFF, 0xFF, 0xFF]\<rparr>]
   \<and> printed (fst (decode_frames
        [(\<lparr>can_id = 0x98ECFF32, can_dlc = 8, data = [0x20, 9, 0, 2, 0xFF, 0xDA, 0xFE, 0]\<rparr>, 100),
         (\<lparr>can_id = 0x98EBFF32, can_dlc = 8, data = [0x21, 1, 2, 3, 4, 5, 6, 7]\<rparr>, 110),
         (\<lparr>can_id = 0x98EBFF32, can_dlc = 8, data = [0x22, 8, 9, 0xFF, 0xFF, 0xFF, 0xFF, 0xFF]\<rparr>, 160)]
        \<lparr>source_address = 0x10, bus_busy = True, bus_busy_timeout = 1105,
         multi_frame_messages =
           [(0x0232, \<lparr>buffer = [], total_size = 21, msg_pgn = 0xFEDA, source_addr = 0x32,
                      session_number = 2, packets_received = 0, total_packets = 3,
                      complete = False, last_activity_time = 5\<rparr>)],
         active_bam_sessions = [(0x0232, True)], session_index = 0, bus_state_mutex = True\<rparr>))
     = []"
  by (simp add: send_defs receive_defs Let_def printed_def hex_bytes_def hex2_def hex_digit_def
      word_le_nat_alt)

text \<open>
  C2, amended.  Multi-frame: for every payload \<open>P\<close> with \<open>1 \<le> |P| \<le> 1785\<close> and every
  PGN, when \<open>send_multi_frame_message\<close> returns true, the frames it has put on the bus,
  decoded in order (at any times) by a receiver that holds no session under the key of
  the sender's session number and address, print exactly one record, with the low 24
  bits of the PGN, the sender's address, \<open>size = |P|\<close> and the upper-case hex of \<open>P\<close>.
  Single frame: for every payload of at most 8 bytes and every PGN whose \<open>pdu_format\<close> is
  at least 240, when \<open>send_single_frame_message\<close> returns true, the frame it has put on
  the bus prints exactly one record, with the low 16 bits of the PGN, the sender's
  address, the size \<open>SF\<close> and the upper-case hex of \<open>P\<close>.
\<close>

theorem round_trip:
  "(1 \<le> length P \<and> length P \<le> 1785 \<and> unat sz = length P \<and> session_index tx < 6
    \<and> send_multi_frame_message pgn P sz clock mcp tx = (True, frames, evs, tx')
    \<and> map_of (multi_frame_messages rx)
          (session_key (working_sessions ! session_index tx) (source_address tx)) = None
    \<and> length stamps = length frames
    \<longrightarrow> printed (fst (decode_frames (zip frames stamps) rx))
         = [\<lparr>json_pgn = pgn AND 0xFFFFFF, json_sender = source_address tx,
             json_size = Bytes (of_nat (length P)), json_data = hex_bytes P\<rparr>])
   \<and> (length P \<le> 8 \<and> unat len = length P \<and> 240 \<le> drop_bit 8 pgn AND 0xFF
    \<and> send_single_frame_message pgn dst P len uninit clock mcp tx = (True, frames1, evs1, tx1)
    \<and> length stamps1 = length frames1
    \<longrightarrow> printed (fst (decode_frames (zip frames1 stamps1) rx))
         = [\<lparr>json_pgn = pgn AND 0xFFFF, json_sender = source_address tx,
             json_size = SF, json_data = hex_bytes P\<rparr>])"
  using bam_frames_print_payload [of P sz tx pgn clock mcp frames evs tx' rx stamps]
    single_frame_prints_payload [of P len pgn dst uninit clock mcp tx frames1 evs1 tx1 stamps1 rx]
  by blast

text \<open>
  Node \<open>0x32\<close> sends nine bytes as a BAM and three bytes as a single frame, both with
  PGN \<open>0xFEDA\<close>, to a receiver with an empty session table.
\<close>

theorem round_trip_witness:
  "printed (fst (decode_frames
        [(\<lparr>can_id = 0x98ECFF32, can_dlc = 8, data = [0x20, 9, 0, 2, 0xFF, 0xDA, 0xFE, 0]\<rparr>, 100),
         (\<lparr>can_id = 0x98EBFF32, can_dlc = 8, data = [0x21, 1, 2, 3, 4, 5, 6, 7]\<rparr>, 110),
         (\<lparr>can_id = 0x98EBFF32, can_dlc = 8, data = [0x22, 8, 9, 0xFF, 0xFF, 0xFF, 0xFF, 0xFF]\<rparr>, 160)]
        (new_Controller 0x10)))
     = [\<lparr>json_pgn = 0xFEDA, json_sender = 0x32, json_size = Bytes 9,
         json_data = ''010203040506070809''\<rparr>]
   \<and> printed (fst (decode_frames
        [(\<lparr>can_id = 0x98FEDA32, can_dlc = 3, data = [0x41, 0x42, 0x43, 0, 0, 0, 0, 0]\<rparr>, 5)]
        (new_Controller 0x10)))
     = [\<lparr>json_pgn = 0xFEDA, json_sender = 0x32, json_size = SF, json_data = ''414243''\<rparr>]"
proof -
  let ?tx = "new_Controller 0x32"
  let ?rx = "new_Controller 0x10"
  let ?P = "[1, 2, 3, 4, 5, 6, 7, 8, 9] :: 8 word list"
  let ?frames = "[\<lparr>can_id = 0x98ECFF32, can_dlc = 8, data = [0x20, 9, 0, 2, 0xFF, 0xDA, 0xFE, 0]\<rparr>,
        \<lparr>can_id = 0x98EBFF32, can_dlc = 8, data = [0x21, 1, 2, 3, 4, 5, 6, 7]\<rparr>,
        \<lparr>can_id = 0x98EBFF32, can_dlc = 8, data = [0x22, 8, 9, 0xFF, 0xFF, 0xFF, 0xFF, 0xFF]\<rparr>]"
  let ?Q = "[0x41, 0x42, 0x43] :: 8 word list"
  let ?frames1 = "[\<lparr>can_id = 0x98FEDA32, can_dlc = 3, data = [0x41, 0x42, 0x43, 0, 0, 0, 0, 0]\<rparr>]"
  have m: "send_multi_frame_message 0xFEDA ?P 9 (\<lambda>k. 0) (\<lambda>k. True) ?tx
             = (True, ?frames, [], ?tx\<lparr>session_index := 1\<rparr>)"
    by (simp add: send_defs Let_def)
  have f: "map_of (multi_frame_messages ?rx)
             (session_key (working_sessions ! session_index ?tx) (source_address ?tx)) = None"
    by (simp add: new_Controller_def)
  have i: "session_index ?tx < 6" by (simp add: new_Controller_def)
  have s: "send_single_frame_message 0xFEDA 0xFF ?Q 3 (replicate 8 0) (\<lambda>k. 0) (\<lambda>k. True) ?tx
             = (True, ?frames1, [], ?tx)"
    by (simp add: send_defs Let_def)
  have p: "(240 :: 32 word) \<le> drop_bit 8 0xFEDA AND 0xFF" by simp
  have a: "printed (fst (decode_frames (zip ?frames [100, 110, 160]) ?rx))
         = [\<lparr>json_pgn = 0xFEDA AND 0xFFFFFF, json_sender = source_address ?tx,
             json_size = Bytes (of_nat (length ?P)), json_data = hex_bytes ?P\<rparr>]"
    using round_trip [of ?P 9 ?tx "0xFEDA" "\<lambda>k. 0" "\<lambda>k. True" ?frames "[]"
        "?tx\<lparr>session_index := 1\<rparr>" ?rx "[100, 110, 160]"] m f i
    by simp
  have b: "printed (fst (decode_frames (zip ?frames1 [5]) ?rx))
         = [\<lparr>json_pgn = 0xFEDA AND 0xFFFF, json_sender = source_address ?tx,
             json_size = SF, json_data = hex_bytes ?Q\<rparr>]"
    using round_trip [where P = ?Q and len = 3 and pgn = "0xFEDA" and dst = "0xFF"
        and uninit = "replicate 8 0" and clock = "\<lambda>k. 0" and mcp = "\<lambda>k. True" and tx = ?tx
        and ?frames1.0 = ?frames1 and ?evs1.0 = "[]" and ?tx1.0 = ?tx and rx = ?rx
        and ?stamps1.0 = "[5]"] s p
    by simp
  show ?thesis
    using a b by (simp add: new_Controller_def hex_bytes_def hex2_def hex_digit_def)
qed

end
